theory Spec2Isabelle
  imports Complex_Main
begin

section \<open>Numbers, errors and containers of the source\<close>

text \<open>
  The analyser is written in Python. Its coordinates, timestamps, distances and speeds are
  Python floats; they are modelled as \<^typ>\<open>real\<close>. In the tracking code every
  arithmetic step is exact and rounding is left out; in the two conversions of utils.py,
  whose round trip depends on it, the rounding of each double operation is a parameter.
  Python integers are \<^typ>\<open>int\<close>. An exception of the source is a value
  \<open>Inl e\<close> of the result type.
\<close>

datatype error = IndexError | ZeroDivisionError

definition bindE :: "error + 'a \<Rightarrow> ('a \<Rightarrow> error + 'b) \<Rightarrow> error + 'b" where
  "bindE r f = (case r of Inl e \<Rightarrow> Inl e | Inr x \<Rightarrow> f x)"

type_synonym point = "real \<times> real"

text \<open>\<open>int(x)\<close> on a float truncates towards zero.\<close>

definition py_int :: "real \<Rightarrow> int" where
  "py_int x = (if 0 \<le> x then \<lfloor>x\<rfloor> else \<lceil>x\<rceil>)"

text \<open>\<open>np.hypot\<close>.\<close>

definition hypot :: "real \<Rightarrow> real \<Rightarrow> real" where
  "hypot a b = sqrt (a * a + b * b)"

text \<open>\<open>xs[-1]\<close> and \<open>xs[i]\<close> for \<open>i \<ge> 0\<close>: IndexError out of range.\<close>

definition py_last :: "'a list \<Rightarrow> error + 'a" where
  "py_last xs = (if xs = [] then Inl IndexError else Inr (last xs))"

definition py_nth :: "'a list \<Rightarrow> nat \<Rightarrow> error + 'a" where
  "py_nth xs i = (if i < length xs then Inr (xs ! i) else Inl IndexError)"

text \<open>\<open>xs[-n:]\<close>: the last \<open>n\<close> elements, all of them when there are fewer.\<close>

definition py_suffix :: "nat \<Rightarrow> 'a list \<Rightarrow> 'a list" where
  "py_suffix n xs = drop (length xs - n) xs"

text \<open>\<open>deque(maxlen=80).append\<close>: a full deque drops its oldest element.\<close>

definition MAXLEN :: nat where
  "MAXLEN = 80"

definition deque_append :: "'a list \<Rightarrow> 'a \<Rightarrow> 'a list" where
  "deque_append xs x = drop (length (xs @ [x]) - MAXLEN) (xs @ [x])"

section \<open>config.py\<close>

definition PLAYER_SIDE :: string where
  "PLAYER_SIDE = ''left''"

definition MOVEMENT_MEMORY :: real where
  "MOVEMENT_MEMORY = 5"

definition REID_TOLERANCE :: real where
  "REID_TOLERANCE = 80"

definition REID_MAX_TIME :: real where
  "REID_MAX_TIME = 10"

definition HIST_SIMILARITY_THRESHOLD :: real where
  "HIST_SIMILARITY_THRESHOLD = 3 / 10"

definition MIN_LIFETIME :: real where
  "MIN_LIFETIME = 8 / 10"

definition MIN_DISTANCE_TRAVELED :: real where
  "MIN_DISTANCE_TRAVELED = 40"

definition MASS_SPAWN_THRESHOLD :: nat where
  "MASS_SPAWN_THRESHOLD = 20"

definition STATIONARY_THRESHOLD :: real where
  "STATIONARY_THRESHOLD = 10"

definition PREDICTION_TOLERANCE :: real where
  "PREDICTION_TOLERANCE = 120"

definition MIN_POINTS_FOR_PREDICTION :: nat where
  "MIN_POINTS_FOR_PREDICTION = 5"

text \<open>
  \<open>np.arange(0.1, PREDICTION_TIME, 0.1)\<close> with \<open>PREDICTION_TIME = 5.0\<close>: the 49 steps
  0.1, 0.2, ..., 4.9.
\<close>

definition prediction_steps :: "real list" where
  "prediction_steps = map (\<lambda>k. real k / 10) [1..<50]"

section \<open>utils.py: ratio and pixel coordinates\<close>






section \<open>minion.py: the track\<close>

text \<open>
  OpenCV and NumPy are outside the repository. What the track needs of them is a parameter:
  the shapes of the frame and of the mask, the normalised hue/saturation histogram of a
  region (\<open>cvtColor\<close>, \<open>calcHist\<close>, \<open>normalize\<close>), the all-zero histogram and the
  correlation of two histograms (\<open>compareHist\<close> with \<open>HISTCMP_CORREL\<close>).
\<close>

record ('f, 'k, 'h) vision =
  frame_shape :: "'f \<Rightarrow> int \<times> int"
  mask_shape :: "'k \<Rightarrow> int \<times> int"
  calc_hist :: "'f \<Rightarrow> 'k \<Rightarrow> int \<Rightarrow> int \<Rightarrow> int \<Rightarrow> int \<Rightarrow> 'h"
  zeros_hist :: 'h
  compare_hist :: "'h \<Rightarrow> 'h \<Rightarrow> real"

text \<open>
  Number of cells of \<open>a[y1:y2, x1:x2]\<close> for an array of the given (rows, columns) and
  non-negative bounds: NumPy clips a slice to the array.
\<close>

definition slice_size :: "int \<times> int \<Rightarrow> int \<Rightarrow> int \<Rightarrow> int \<Rightarrow> int \<Rightarrow> int" where
  "slice_size shp y1 y2 x1 x2 =
     max 0 (min y2 (fst shp) - y1) * max 0 (min x2 (snd shp) - x1)"

record 'h minion =
  mid :: int
  positions :: "point list"
  timestamps :: "real list"
  creation_time :: real
  last_seen :: real
  active :: bool
  hist :: 'h
  spawn_side :: string
  current_side :: string
  general_direction :: string
  optimal_bridge :: string
  frame_width :: int
  frame_height :: int
  total_distance_traveled :: real
  original_classification :: "bool option"
  is_valid_minion :: bool
  consecutive_stationary_frames :: int
  max_speed :: real
  predicted_positions :: "(real \<times> real \<times> real) list"
  velocity :: point
  acceleration :: point

definition compute_hist :: "('f, 'k, 'h) vision \<Rightarrow> 'f \<Rightarrow> 'k \<Rightarrow> point \<Rightarrow> 'h" where
  "compute_hist cv frame msk position =
     (let x = py_int (fst position); y = py_int (snd position);
          size = 25;
          x1 = max 0 (x - size); y1 = max 0 (y - size);
          x2 = min (snd (frame_shape cv frame)) (x + size);
          y2 = min (fst (frame_shape cv frame)) (y + size)
      in if x2 \<le> x1 \<or> y2 \<le> y1 then zeros_hist cv
         else if slice_size (frame_shape cv frame) y1 y2 x1 x2 = 0
                 \<or> slice_size (mask_shape cv msk) y1 y2 x1 x2 = 0 then zeros_hist cv
         else calc_hist cv frame msk y1 y2 x1 x2)"

definition Minion_init ::
  "('f, 'k, 'h) vision \<Rightarrow> int \<Rightarrow> point \<Rightarrow> 'f \<Rightarrow> 'k \<Rightarrow> int \<Rightarrow> int \<Rightarrow> real \<Rightarrow> 'h minion" where
  "Minion_init cv ident position frame msk fw fh timestamp =
     \<lparr> mid = ident,
       positions = deque_append [] position,
       timestamps = deque_append [] timestamp,
       creation_time = timestamp,
       last_seen = timestamp,
       active = True,
       hist = compute_hist cv frame msk position,
       spawn_side = (if fst position < real_of_int fw / 2 then ''left'' else ''right''),
       current_side = (if fst position < real_of_int fw / 2 then ''left'' else ''right''),
       general_direction = ''unknown'',
       optimal_bridge = ''unknown'',
       frame_width = fw,
       frame_height = fh,
       total_distance_traveled = 0,
       original_classification = None,
       is_valid_minion = False,
       consecutive_stationary_frames = 0,
       max_speed = 0,
       predicted_positions = [],
       velocity = (0, 0),
       acceleration = (0, 0) \<rparr>"

text \<open>
  \<open>calculate_prediction\<close>. The timestamps are read at indices taken from the positions,
  so a timestamp history shorter than the position history raises IndexError.
\<close>

definition estimate_kinematics :: "'h minion \<Rightarrow> point list \<Rightarrow> real list \<Rightarrow> error + 'h minion" where
  "estimate_kinematics self recent_positions recent_timestamps =
     (if length recent_positions \<ge> 3 then
        (if recent_timestamps = [] then Inl IndexError
         else
           let time_span = last recent_timestamps - hd recent_timestamps in
           if time_span > 0 then
             (let dx = fst (last recent_positions) - fst (hd recent_positions);
                  dy = snd (last recent_positions) - snd (hd recent_positions);
                  self1 = self\<lparr>velocity := (dx / time_span, dy / time_span)\<rparr>
              in if length recent_positions \<ge> 6 then
                   (let mid_idx = length recent_positions div 2 in
                    if mid_idx \<ge> length recent_timestamps then Inl IndexError
                    else
                      let time_span_1 = recent_timestamps ! mid_idx - hd recent_timestamps;
                          time_span_2 = last recent_timestamps - recent_timestamps ! mid_idx
                      in if time_span_1 > 0 \<and> time_span_2 > 0 then
                           (let vel1_x = (fst (recent_positions ! mid_idx) - fst (hd recent_positions)) / time_span_1;
                                vel1_y = (snd (recent_positions ! mid_idx) - snd (hd recent_positions)) / time_span_1;
                                vel2_x = (fst (last recent_positions) - fst (recent_positions ! mid_idx)) / time_span_2;
                                vel2_y = (snd (last recent_positions) - snd (recent_positions ! mid_idx)) / time_span_2;
                                accel_x = (vel2_x - vel1_x) / time_span_2;
                                accel_y = (vel2_y - vel1_y) / time_span_2
                            in Inr (self1\<lparr>acceleration := (accel_x, accel_y)\<rparr>))
                         else Inr self1)
                 else Inr self1)
           else Inr self)
      else Inr self)"

definition generate_predictions :: "'h minion \<Rightarrow> real \<Rightarrow> 'h minion" where
  "generate_predictions self current_time =
     (if \<bar>fst (velocity self)\<bar> > 1 \<or> \<bar>snd (velocity self)\<bar> > 1 then
        (let last_pos = last (positions self) in
         self\<lparr>predicted_positions :=
           map (\<lambda>dt.
             let pred_x = fst last_pos + fst (velocity self) * dt
                            + (1 / 2) * fst (acceleration self) * dt * dt;
                 pred_y = snd last_pos + snd (velocity self) * dt
                            + (1 / 2) * snd (acceleration self) * dt * dt
             in (max 0 (min (real_of_int (frame_width self)) pred_x),
                 max 0 (min (real_of_int (frame_height self)) pred_y),
                 current_time + dt)) prediction_steps\<rparr>)
      else self\<lparr>predicted_positions := []\<rparr>)"

definition calculate_prediction :: "'h minion \<Rightarrow> real \<Rightarrow> error + 'h minion" where
  "calculate_prediction self current_time =
     (if length (positions self) < MIN_POINTS_FOR_PREDICTION then Inr self
      else bindE (estimate_kinematics self (py_suffix 10 (positions self))
                                          (py_suffix 10 (timestamps self)))
             (\<lambda>self1. Inr (generate_predictions self1 current_time)))"

definition get_predicted_position_at_time :: "'h minion \<Rightarrow> real \<Rightarrow> error + point option" where
  "get_predicted_position_at_time self target_time =
     (if predicted_positions self = [] \<or> length (timestamps self) < 2 then
        (if length (positions self) > 0 then Inr (Some (last (positions self)))
         else Inr None)
      else
        bindE (py_last (positions self)) (\<lambda>last_pos.
          let dt = target_time - last (timestamps self);
              pred_x = fst last_pos + fst (velocity self) * dt
                         + (1 / 2) * fst (acceleration self) * dt * dt;
              pred_y = snd last_pos + snd (velocity self) * dt
                         + (1 / 2) * snd (acceleration self) * dt * dt
          in Inr (Some (pred_x, pred_y))))"

definition classify_as_enemy :: "'h minion \<Rightarrow> bool" where
  "classify_as_enemy self =
     (if general_direction self = ''unknown'' then False
      else if PLAYER_SIDE = ''left'' then general_direction self = ''right''
      else general_direction self = ''left'')"

text \<open>
  \<open>calculate_direction_and_bridge\<close>. Past the guard the history has at least 5 samples,
  so \<open>positions[0]\<close> and \<open>positions[-1]\<close> exist; \<open>current_y / self.frame_height\<close> raises
  ZeroDivisionError when the frame height is 0.
\<close>

definition calculate_direction_and_bridge :: "'h minion \<Rightarrow> error + 'h minion" where
  "calculate_direction_and_bridge self =
     (if length (positions self) < 5 then Inr self
      else
        let start_pos_x = fst (hd (positions self));
            current_pos_x = fst (last (positions self));
            horizontal_movement = current_pos_x - start_pos_x;
            self1 = (if \<bar>horizontal_movement\<bar> > 50
                     then self\<lparr>general_direction :=
                            (if horizontal_movement > 0 then ''right'' else ''left'')\<rparr>
                     else self);
            self2 = (if original_classification self1 = None
                        \<and> general_direction self1 \<noteq> ''unknown''
                     then self1\<lparr>original_classification := Some (classify_as_enemy self1)\<rparr>
                     else self1);
            self3 = self2\<lparr>current_side :=
                      (if fst (last (positions self2)) < real_of_int (frame_width self2) / 2
                       then ''left'' else ''right'')\<rparr>;
            current_y = snd (last (positions self3))
        in if frame_height self3 = 0 then Inl ZeroDivisionError
           else
             let vertical_ratio = current_y / real_of_int (frame_height self3);
                 vertical_trend = snd (last (positions self3)) - snd (hd (positions self3))
             in if vertical_ratio < 35 / 100 then Inr (self3\<lparr>optimal_bridge := ''top''\<rparr>)
                else if vertical_ratio > 65 / 100 then Inr (self3\<lparr>optimal_bridge := ''bottom''\<rparr>)
                else Inr (self3\<lparr>optimal_bridge :=
                           (if vertical_trend \<le> 0 then ''top'' else ''bottom'')\<rparr>))"

definition validate_as_minion :: "'h minion \<Rightarrow> real \<Rightarrow> 'h minion" where
  "validate_as_minion self current_time =
     (let lifetime = current_time - creation_time self in
      self\<lparr>is_valid_minion :=
        (lifetime > MIN_LIFETIME
         \<and> total_distance_traveled self > MIN_DISTANCE_TRAVELED
         \<and> consecutive_stationary_frames self < 30
         \<and> max_speed self < 200)\<rparr>)"

definition update_position ::
  "('f, 'k, 'h) vision \<Rightarrow> 'h minion \<Rightarrow> point \<Rightarrow> 'f \<Rightarrow> 'k \<Rightarrow> real \<Rightarrow> error + 'h minion" where
  "update_position cv self position frame msk timestamp =
     bindE (py_last (positions self)) (\<lambda>last_pos.
       let distance = hypot (fst position - fst last_pos) (snd position - snd last_pos) in
       bindE (py_last (timestamps self)) (\<lambda>last_ts.
         let time_diff = timestamp - last_ts;
             self1 = (if time_diff > 0 then
                        (let speed = distance / time_diff in
                         self\<lparr>max_speed := max (max_speed self) speed,
                              consecutive_stationary_frames :=
                                (if distance < STATIONARY_THRESHOLD
                                 then consecutive_stationary_frames self + 1 else 0)\<rparr>)
                      else self);
             self2 = self1\<lparr>total_distance_traveled := total_distance_traveled self1 + distance,
                           positions := deque_append (positions self1) position,
                           timestamps := deque_append (timestamps self1) timestamp,
                           last_seen := timestamp,
                           active := True,
                           hist := compute_hist cv frame msk position\<rparr>
         in bindE (calculate_direction_and_bridge self2) (\<lambda>self3.
              calculate_prediction self3 timestamp)))"

definition similarity :: "('f, 'k, 'h) vision \<Rightarrow> 'h minion \<Rightarrow> 'f \<Rightarrow> 'k \<Rightarrow> point \<Rightarrow> real" where
  "similarity cv self frame msk position =
     compare_hist cv (hist self) (compute_hist cv frame msk position)"

text \<open>The strategic summary, \<open>None\<close> for a track that is not validated.\<close>

record strategy_info =
  likely_enemy :: bool
  direction :: string
  info_optimal_bridge :: string
  info_current_side :: string
  info_velocity :: point
  info_predicted_positions :: "(real \<times> real \<times> real) list"

definition get_strategy_info :: "'h minion \<Rightarrow> strategy_info option" where
  "get_strategy_info self =
     (if \<not> is_valid_minion self then None
      else
        let is_enemy = (case original_classification self of
                          Some c \<Rightarrow> c
                        | None \<Rightarrow> classify_as_enemy self)
        in Some \<lparr> likely_enemy = is_enemy,
                  direction = general_direction self,
                  info_optimal_bridge = optimal_bridge self,
                  info_current_side = current_side self,
                  info_velocity = velocity self,
                  info_predicted_positions = predicted_positions self \<rparr>)"

text \<open>
  The ways a track changes after its creation: its own methods and the one field the
  manager writes itself (\<open>minion.active = False\<close>).
\<close>

datatype ('f, 'k) track_op =
    Update point 'f 'k real
  | Validate real
  | Predict real
  | Analyse
  | MarkInactive

fun apply_op :: "('f, 'k, 'h) vision \<Rightarrow> 'h minion \<Rightarrow> ('f, 'k) track_op \<Rightarrow> error + 'h minion" where
  "apply_op cv m (Update p frame msk t) = update_position cv m p frame msk t"
| "apply_op cv m (Validate t) = Inr (validate_as_minion m t)"
| "apply_op cv m (Predict t) = calculate_prediction m t"
| "apply_op cv m Analyse = calculate_direction_and_bridge m"
| "apply_op cv m MarkInactive = Inr (m\<lparr>active := False\<rparr>)"

fun run_ops :: "('f, 'k, 'h) vision \<Rightarrow> 'h minion \<Rightarrow> ('f, 'k) track_op list \<Rightarrow> error + 'h minion" where
  "run_ops cv m [] = Inr m"
| "run_ops cv m (x # xs) = bindE (apply_op cv m x) (\<lambda>m'. run_ops cv m' xs)"

section \<open>detector.py: the tracking manager\<close>

text \<open>
  \<open>self.minions\<close> is a dictionary from identifiers to tracks. Python iterates over a
  dictionary in insertion order and the association pass depends on that order, so the
  dictionary is an association list in insertion order: storing under a new key appends,
  storing under a present key replaces in place, \<open>del\<close> removes the entry.
\<close>

definition dict_set :: "('a \<times> 'b) list \<Rightarrow> 'a \<Rightarrow> 'b \<Rightarrow> ('a \<times> 'b) list" where
  "dict_set d k v =
     (if k \<in> set (map fst d) then map (\<lambda>(k', v'). if k' = k then (k', v) else (k', v')) d
      else d @ [(k, v)])"

definition dict_del :: "'a \<Rightarrow> ('a \<times> 'b) list \<Rightarrow> ('a \<times> 'b) list" where
  "dict_del k d = filter (\<lambda>(k', v'). k' \<noteq> k) d"

record 'h detector =
  det_frame_width :: int
  det_frame_height :: int
  minions :: "(int \<times> 'h minion) list"
  next_minion_id :: int

text \<open>\<open>MONITOR\<close> of config.py is 1920 by 1080.\<close>

definition MinionDetector_init :: "'h detector" where
  "MinionDetector_init =
     \<lparr> det_frame_width = 1920, det_frame_height = 1080, minions = [], next_minion_id = 1 \<rparr>"

text \<open>
  The distance of a candidate to a track in the association pass: the distance to the last
  known position, halved when the candidate is within the prediction tolerance of the
  predicted position.
\<close>

definition match_distance :: "'h minion \<Rightarrow> real \<Rightarrow> point \<Rightarrow> error + real" where
  "match_distance minion current_time p =
     bindE (py_last (positions minion)) (\<lambda>last_pos.
       let distance = hypot (fst last_pos - fst p) (snd last_pos - snd p) in
       bindE (get_predicted_position_at_time minion current_time) (\<lambda>predicted_pos.
         case predicted_pos of
           Some pp \<Rightarrow>
             (let pred_distance = hypot (fst pp - fst p) (snd pp - snd p) in
              if pred_distance < PREDICTION_TOLERANCE then Inr (distance * (1 / 2))
              else Inr distance)
         | None \<Rightarrow> Inr distance))"

text \<open>
  The search of one track for its best candidate: the loop over
  \<open>enumerate(detected_positions)\<close>, carrying \<open>(best_match_idx, min_distance, best_similarity)\<close>.
\<close>

fun find_best_match ::
  "('f, 'k, 'h) vision \<Rightarrow> 'f \<Rightarrow> 'k \<Rightarrow> real \<Rightarrow> 'h minion \<Rightarrow> nat set \<Rightarrow> (nat \<times> point) list
     \<Rightarrow> int \<times> real \<times> real \<Rightarrow> error + (int \<times> real \<times> real)" where
  "find_best_match cv frame msk current_time minion used_detections [] best = Inr best"
| "find_best_match cv frame msk current_time minion used_detections ((i, p) # rest)
       (best_match_idx, min_distance, best_similarity) =
     (if i \<in> used_detections
      then find_best_match cv frame msk current_time minion used_detections rest
             (best_match_idx, min_distance, best_similarity)
      else
        (case match_distance minion current_time p of
           Inl e \<Rightarrow> Inl e
         | Inr distance \<Rightarrow>
             (let similarity = similarity cv minion frame msk p in
              if distance < min_distance
                 \<and> similarity > HIST_SIMILARITY_THRESHOLD
                 \<and> similarity > best_similarity
              then find_best_match cv frame msk current_time minion used_detections rest
                     (int i, distance, similarity)
              else find_best_match cv frame msk current_time minion used_detections rest
                     (best_match_idx, min_distance, best_similarity))))"

text \<open>The body of the loop over the tracks, for one track.\<close>

definition associate_minion ::
  "('f, 'k, 'h) vision \<Rightarrow> point list \<Rightarrow> 'f \<Rightarrow> 'k \<Rightarrow> real \<Rightarrow> 'h minion \<Rightarrow> nat set
     \<Rightarrow> error + ('h minion \<times> nat set)" where
  "associate_minion cv detected_positions frame msk current_time minion used_detections =
     (if \<not> active minion then Inr (minion, used_detections)
      else
        bindE (find_best_match cv frame msk current_time minion used_detections
                 (enumerate 0 detected_positions) (- 1, REID_TOLERANCE, 0))
          (\<lambda>(best_match_idx, min_distance, best_similarity).
             if best_match_idx \<noteq> - 1 then
               bindE (py_nth detected_positions (nat best_match_idx)) (\<lambda>p.
                 bindE (update_position cv minion p frame msk current_time) (\<lambda>minion'.
                   Inr (minion', insert (nat best_match_idx) used_detections)))
             else Inr (minion, used_detections)))"

fun associate_detections_to_existing_minions ::
  "('f, 'k, 'h) vision \<Rightarrow> point list \<Rightarrow> 'f \<Rightarrow> 'k \<Rightarrow> real \<Rightarrow> (int \<times> 'h minion) list \<Rightarrow> nat set
     \<Rightarrow> error + ((int \<times> 'h minion) list \<times> nat set)" where
  "associate_detections_to_existing_minions cv detected_positions frame msk current_time
       [] used_detections = Inr ([], used_detections)"
| "associate_detections_to_existing_minions cv detected_positions frame msk current_time
       ((k, minion) # rest) used_detections =
     (case associate_minion cv detected_positions frame msk current_time minion used_detections of
        Inl e \<Rightarrow> Inl e
      | Inr (minion', used') \<Rightarrow>
          (case associate_detections_to_existing_minions cv detected_positions frame msk
                  current_time rest used' of
             Inl e \<Rightarrow> Inl e
           | Inr (rest', used'') \<Rightarrow> Inr ((k, minion') # rest', used'')))"

definition is_mass_spawn_event :: "point list \<Rightarrow> real \<Rightarrow> bool" where
  "is_mass_spawn_event detected_positions current_time =
     (length detected_positions > MASS_SPAWN_THRESHOLD)"

fun spawn_loop ::
  "('f, 'k, 'h) vision \<Rightarrow> point list \<Rightarrow> nat set \<Rightarrow> 'f \<Rightarrow> 'k \<Rightarrow> real \<Rightarrow> (nat \<times> point) list
     \<Rightarrow> 'h detector \<Rightarrow> 'h detector" where
  "spawn_loop cv detected_positions used_detections frame msk current_time [] self = self"
| "spawn_loop cv detected_positions used_detections frame msk current_time ((i, p) # rest) self =
     (if i \<notin> used_detections then
        (if is_mass_spawn_event detected_positions current_time
         then spawn_loop cv detected_positions used_detections frame msk current_time rest self
         else
           let new_minion = Minion_init cv (next_minion_id self) p frame msk
                              (det_frame_width self) (det_frame_height self) current_time
           in spawn_loop cv detected_positions used_detections frame msk current_time rest
                (self\<lparr>minions := dict_set (minions self) (next_minion_id self) new_minion,
                      next_minion_id := next_minion_id self + 1\<rparr>))
      else spawn_loop cv detected_positions used_detections frame msk current_time rest self)"

definition create_new_minions ::
  "('f, 'k, 'h) vision \<Rightarrow> point list \<Rightarrow> nat set \<Rightarrow> 'f \<Rightarrow> 'k \<Rightarrow> real \<Rightarrow> 'h detector
     \<Rightarrow> 'h detector" where
  "create_new_minions cv detected_positions used_detections frame msk current_time self =
     spawn_loop cv detected_positions used_detections frame msk current_time
       (enumerate 0 detected_positions) self"

text \<open>\<open>_update_minion_status\<close>: what the loop does to one track, then the whole pass.\<close>

definition age_minion :: "real \<Rightarrow> 'h minion \<Rightarrow> 'h minion" where
  "age_minion current_time minion =
     validate_as_minion
       (if current_time - last_seen minion > MOVEMENT_MEMORY then minion\<lparr>active := False\<rparr>
        else minion) current_time"

definition update_minion_status :: "'h detector \<Rightarrow> real \<Rightarrow> 'h detector" where
  "update_minion_status self current_time =
     (let aged = map (\<lambda>(k, minion). (k, age_minion current_time minion)) (minions self);
          minions_to_remove =
            map fst (filter (\<lambda>(k, minion). current_time - last_seen minion > REID_MAX_TIME) aged)
      in self\<lparr>minions := fold dict_del minions_to_remove aged\<rparr>)"

definition update_minion_tracking ::
  "('f, 'k, 'h) vision \<Rightarrow> 'h detector \<Rightarrow> point list \<Rightarrow> 'f \<Rightarrow> 'k \<Rightarrow> real \<Rightarrow> error + 'h detector" where
  "update_minion_tracking cv self detected_positions frame msk current_time =
     bindE (associate_detections_to_existing_minions cv detected_positions frame msk current_time
              (minions self) {})
       (\<lambda>(ms, used_detections).
          Inr (update_minion_status
                 (create_new_minions cv detected_positions used_detections frame msk current_time
                    (self\<lparr>minions := ms\<rparr>))
                 current_time))"

text \<open>
  The two queries read the manager and write nothing, so each is a function of the state
  that returns the list only.
\<close>

definition get_active_minions :: "'h detector \<Rightarrow> 'h minion list" where
  "get_active_minions self =
     filter (\<lambda>minion. is_valid_minion minion \<and> active minion) (map snd (minions self))"

definition get_enemy_minions :: "'h detector \<Rightarrow> 'h minion list" where
  "get_enemy_minions self =
     filter (\<lambda>minion. case get_strategy_info minion of
                         None \<Rightarrow> False
                       | Some info \<Rightarrow> likely_enemy info)
       (get_active_minions self)"

section \<open>Auxiliary definitions for the proofs\<close>

text \<open>
  The fields of a track that only \<open>update_position\<close>, the validation and the manager write;
  the direction analysis and the prediction leave all of them alone.
\<close>

definition observed ::
  "'h minion \<Rightarrow> int \<times> point list \<times> real list \<times> real \<times> real \<times> bool \<times> 'h \<times> string
     \<times> int \<times> int \<times> real \<times> bool \<times> int \<times> real" where
  "observed m = (mid m, positions m, timestamps m, creation_time m, last_seen m, active m,
     hist m, spawn_side m, frame_width m, frame_height m, total_distance_traveled m,
     is_valid_minion m, consecutive_stationary_frames m, max_speed m)"

text \<open>
  The track after the first half of \<open>update_position\<close> (movement metrics, histories,
  last_seen, active, histogram), before the direction analysis and the prediction, for a
  track whose histories are not empty.
\<close>

definition observe ::
  "('f, 'k, 'h) vision \<Rightarrow> 'h minion \<Rightarrow> point \<Rightarrow> 'f \<Rightarrow> 'k \<Rightarrow> real \<Rightarrow> 'h minion" where
  "observe cv self position frame msk timestamp =
     (let distance = hypot (fst position - fst (last (positions self)))
                           (snd position - snd (last (positions self)));
          time_diff = timestamp - last (timestamps self)
      in self\<lparr>max_speed :=
                (if time_diff > 0 then max (max_speed self) (distance / time_diff)
                 else max_speed self),
              consecutive_stationary_frames :=
                (if time_diff > 0
                 then (if distance < STATIONARY_THRESHOLD
                       then consecutive_stationary_frames self + 1 else 0)
                 else consecutive_stationary_frames self),
              total_distance_traveled := total_distance_traveled self + distance,
              positions := deque_append (positions self) position,
              timestamps := deque_append (timestamps self) timestamp,
              last_seen := timestamp,
              active := True,
              hist := compute_hist cv frame msk position\<rparr>)"

text \<open>
  A well-formed track: non-empty histories of equal length and a frame height that is not 0.
\<close>

definition track_wf :: "'h minion \<Rightarrow> bool" where
  "track_wf m \<longleftrightarrow>
     positions m \<noteq> [] \<and> length (timestamps m) = length (positions m) \<and> frame_height m \<noteq> 0"

text \<open>
  A concrete setting for worked examples: a 1920 by 1080 frame, every region with the same
  histogram, and a track created at (100, 500) that moves right by 75 pixels every half
  second.
\<close>

definition example_vision :: "(unit, unit, nat) vision" where
  "example_vision =
     \<lparr> frame_shape = (\<lambda>_. (1080, 1920)), mask_shape = (\<lambda>_. (1080, 1920)),
       calc_hist = (\<lambda>_ _ y1 y2 x1 x2. 1), zeros_hist = 0,
       compare_hist = (\<lambda>a b. if a = b then 1 else 0) \<rparr>"

definition example_track :: "nat minion" where
  "example_track = Minion_init example_vision 1 (100, 500) () () 1920 1080 0"

definition example_updates :: "(unit, unit) track_op list" where
  "example_updates =
     [Update (175, 500) () () (1 / 2), Update (250, 500) () () 1,
      Update (325, 500) () () (3 / 2), Update (400, 500) () () 2]"

definition example_track_5 :: "nat minion" where
  "example_track_5 =
     \<lparr> mid = 1,
       positions = [(100, 500), (175, 500), (250, 500), (325, 500), (400, 500)],
       timestamps = [0, 1 / 2, 1, 3 / 2, 2],
       creation_time = 0, last_seen = 2, active = True, hist = 1,
       spawn_side = ''left'', current_side = ''left'',
       general_direction = ''right'', optimal_bridge = ''top'',
       frame_width = 1920, frame_height = 1080,
       total_distance_traveled = 300,
       original_classification = Some True, is_valid_minion = False,
       consecutive_stationary_frames = 0, max_speed = 150,
       predicted_positions =
         map (\<lambda>dt. (max 0 (min 1920 (400 + 150 * dt)), 500, 2 + dt)) prediction_steps,
       velocity = (150, 0), acceleration = (0, 0) \<rparr>"

definition example_retreat :: "(unit, unit) track_op list" where
  "example_retreat = [Update (0, 500) () () 6, Validate 6]"


text \<open>
  The distance of the association pass in the words of the specification: the distance to
  the last known position, halved when the candidate is within the prediction tolerance of
  the predicted position.
\<close>

definition spec_match_distance :: "'h minion \<Rightarrow> real \<Rightarrow> point \<Rightarrow> real" where
  "spec_match_distance m t p =
     (let d = hypot (fst (last (positions m)) - fst p) (snd (last (positions m)) - snd p)
      in case get_predicted_position_at_time m t of
           Inr (Some pp) \<Rightarrow>
             (if hypot (fst pp - fst p) (snd pp - snd p) < PREDICTION_TOLERANCE
              then d / 2 else d)
         | _ \<Rightarrow> d)"

text \<open>
  Eligibility of the candidate at index \<open>i\<close> for a track, in the words of the
  specification: unused, within the re-identification tolerance, above the similarity floor.
\<close>

definition eligible ::
  "('f, 'k, 'h) vision \<Rightarrow> 'f \<Rightarrow> 'k \<Rightarrow> real \<Rightarrow> 'h minion \<Rightarrow> nat set \<Rightarrow> point list \<Rightarrow> nat
     \<Rightarrow> bool" where
  "eligible cv frame msk t m used ds i \<longleftrightarrow>
     i < length ds \<and> i \<notin> used
     \<and> spec_match_distance m t (ds ! i) < REID_TOLERANCE
     \<and> similarity cv m frame msk (ds ! i) > HIST_SIMILARITY_THRESHOLD"

text \<open>
  The invariant of the search loop, over the set \<open>P\<close> of the (index, candidate) pairs
  already seen: either nothing is selected and nothing seen is eligible, or the selection
  is a seen eligible candidate that no seen eligible candidate beats in both distance and
  similarity.
\<close>

definition seen_ok ::
  "('f, 'k, 'h) vision \<Rightarrow> 'f \<Rightarrow> 'k \<Rightarrow> real \<Rightarrow> 'h minion \<Rightarrow> nat set \<Rightarrow> nat \<times> point \<Rightarrow> bool" where
  "seen_ok cv frame msk t m used c \<longleftrightarrow>
     fst c \<notin> used
     \<and> spec_match_distance m t (snd c) < REID_TOLERANCE
     \<and> similarity cv m frame msk (snd c) > HIST_SIMILARITY_THRESHOLD"

definition scan_inv ::
  "('f, 'k, 'h) vision \<Rightarrow> 'f \<Rightarrow> 'k \<Rightarrow> real \<Rightarrow> 'h minion \<Rightarrow> nat set \<Rightarrow> (nat \<times> point) set
     \<Rightarrow> int \<times> real \<times> real \<Rightarrow> bool" where
  "scan_inv cv frame msk t m used P best \<longleftrightarrow>
     (case best of (b, dmin, smax) \<Rightarrow>
        if b = - 1
        then dmin = REID_TOLERANCE \<and> smax = 0 \<and> (\<forall>c \<in> P. \<not> seen_ok cv frame msk t m used c)
        else 0 \<le> b
             \<and> (\<exists>q. (nat b, q) \<in> P \<and> seen_ok cv frame msk t m used (nat b, q)
                    \<and> dmin = spec_match_distance m t q
                    \<and> smax = similarity cv m frame msk q)
             \<and> (\<forall>c \<in> P. seen_ok cv frame msk t m used c \<longrightarrow>
                    \<not> (spec_match_distance m t (snd c) < dmin
                       \<and> similarity cv m frame msk (snd c) > smax)))"

text \<open>The candidates of a cycle that the association pass left unused, in list order.\<close>

definition unused_detections :: "nat set \<Rightarrow> point list \<Rightarrow> point list" where
  "unused_detections used ds = map snd (filter (\<lambda>(i, p). i \<notin> used) (enumerate 0 ds))"

text \<open>Every key of the dictionary is below the counter.\<close>

definition ids_below_counter :: "'h detector \<Rightarrow> bool" where
  "ids_below_counter self \<longleftrightarrow> (\<forall>k \<in> set (map fst (minions self)). k < next_minion_id self)"

text \<open>
  Examples for the manager. In \<open>roi_vision\<close> the histogram of a region is its left edge,
  so that candidates at different places look different; \<open>scenario_vision\<close> scores 0.6
  against the track created at x = 100 and 0.2 against any other; \<open>ranking_vision\<close>
  scores 0.9 for the candidate at x = 120 and 0.5 for any other.
\<close>

definition scenario_vision :: "(unit, unit, nat) vision" where
  "scenario_vision =
     \<lparr> frame_shape = (\<lambda>_. (1080, 1920)), mask_shape = (\<lambda>_. (1080, 1920)),
       calc_hist = (\<lambda>_ _ y1 y2 x1 x2. nat x1), zeros_hist = 0,
       compare_hist = (\<lambda>a b. if a = 75 then 6 / 10 else 2 / 10) \<rparr>"

definition track_A :: "nat minion" where
  "track_A = Minion_init scenario_vision 1 (100, 500) () () 1920 1080 0"

definition track_B :: "nat minion" where
  "track_B = Minion_init scenario_vision 2 (130, 500) () () 1920 1080 0"

definition ranking_vision :: "(unit, unit, nat) vision" where
  "ranking_vision =
     \<lparr> frame_shape = (\<lambda>_. (1080, 1920)), mask_shape = (\<lambda>_. (1080, 1920)),
       calc_hist = (\<lambda>_ _ y1 y2 x1 x2. nat x1), zeros_hist = 0,
       compare_hist = (\<lambda>a b. if b = 95 then 9 / 10 else 5 / 10) \<rparr>"

definition track_C :: "nat minion" where
  "track_C = Minion_init ranking_vision 1 (100, 500) () () 1920 1080 0"

text \<open>
  A manager holding one track, created at time 0 at (500, 500) and not seen since, as it
  stands after a cycle at time 6: inactive and not yet evicted.
\<close>

definition lost_track :: "nat minion" where
  "lost_track = (Minion_init example_vision 1 (500, 500) () () 1920 1080 0)\<lparr>active := False\<rparr>"

definition lost_track_detector :: "nat detector" where
  "lost_track_detector =
     \<lparr> det_frame_width = 1920, det_frame_height = 1080,
       minions = [(1, lost_track)], next_minion_id = 2 \<rparr>"

text \<open>
  A manager with three valid tracks: one retreating with a frozen enemy classification,
  one of unknown direction, one inactive.
\<close>

definition query_detector :: "nat detector" where
  "query_detector =
     \<lparr> det_frame_width = 1920, det_frame_height = 1080,
       minions =
         [(1, example_track_5\<lparr>is_valid_minion := True, general_direction := ''left''\<rparr>),
          (2, example_track\<lparr>mid := 2, is_valid_minion := True\<rparr>),
          (3, example_track_5\<lparr>mid := 3, is_valid_minion := True, active := False\<rparr>)],
       next_minion_id = 4 \<rparr>"

text \<open>
  What an association leaves to look at: the position history of the track and the used
  candidates, for one track and for the whole pass.
\<close>

definition association_result ::
  "error + ('h minion \<times> nat set) \<Rightarrow> error + (point list \<times> nat set)" where
  "association_result r = map_sum id (\<lambda>(m, used). (positions m, used)) r"

definition pass_result ::
  "error + ((int \<times> 'h minion) list \<times> nat set)
     \<Rightarrow> error + ((int \<times> bool \<times> point list) list \<times> nat set)" where
  "pass_result r =
     map_sum id (\<lambda>(ms, used). (map (\<lambda>(k, m). (k, active m, positions m)) ms, used)) r"

definition cycle_result :: "error + 'h detector \<Rightarrow> error + (int \<times> bool \<times> point list \<times> real) list" where
  "cycle_result r =
     map_sum id (\<lambda>s. map (\<lambda>(k, m). (k, active m, positions m, last_seen m)) (minions s)) r"

section \<open>Results, deques and distances\<close>

lemma bindE_Inr [simp]: "bindE (Inr x) f = f x"
  by (simp add: bindE_def)

lemma bindE_Inl [simp]: "bindE (Inl e) f = Inl e"
  by (simp add: bindE_def)

lemma bindE_eq_Inr: "bindE r f = Inr y \<longleftrightarrow> (\<exists>x. r = Inr x \<and> f x = Inr y)"
  by (cases r) simp_all

lemma hypot_nonneg: "0 \<le> hypot a b"
  by (simp add: hypot_def)

lemma hypot_axis: "hypot a 0 = \<bar>a\<bar>"
  by (simp add: hypot_def)

lemma length_deque_append: "length (deque_append xs x) = min MAXLEN (Suc (length xs))"
  by (simp add: deque_append_def MAXLEN_def)

lemma deque_append_Nil: "deque_append [] x = [x]"
  by (simp add: deque_append_def MAXLEN_def)

lemma deque_append_nonempty: "deque_append xs x \<noteq> []"
  by (simp add: deque_append_def MAXLEN_def)

lemma last_deque_append: "last (deque_append xs x) = x"
  by (simp add: deque_append_def MAXLEN_def)

lemma length_py_suffix: "length (py_suffix n xs) = min n (length xs)"
  by (simp add: py_suffix_def)

section \<open>The track: what each method leaves alone\<close>

lemma observed_update [simp]:
  "observed (m\<lparr>velocity := v\<rparr>) = observed m"
  "observed (m\<lparr>acceleration := a\<rparr>) = observed m"
  "observed (m\<lparr>predicted_positions := p\<rparr>) = observed m"
  "observed (m\<lparr>general_direction := g\<rparr>) = observed m"
  "observed (m\<lparr>original_classification := c\<rparr>) = observed m"
  "observed (m\<lparr>current_side := s\<rparr>) = observed m"
  "observed (m\<lparr>optimal_bridge := b\<rparr>) = observed m"
  by (simp_all add: observed_def)

lemma observed_fields:
  assumes "observed m' = observed m"
  shows "mid m' = mid m" "positions m' = positions m" "timestamps m' = timestamps m"
    "creation_time m' = creation_time m" "last_seen m' = last_seen m" "active m' = active m"
    "hist m' = hist m" "spawn_side m' = spawn_side m" "frame_width m' = frame_width m"
    "frame_height m' = frame_height m"
    "total_distance_traveled m' = total_distance_traveled m"
    "is_valid_minion m' = is_valid_minion m"
    "consecutive_stationary_frames m' = consecutive_stationary_frames m"
    "max_speed m' = max_speed m"
  using assms by (simp_all add: observed_def)

lemma estimate_kinematics_observed:
  "estimate_kinematics m rp rt = Inr m' \<Longrightarrow> observed m' = observed m"
  unfolding estimate_kinematics_def Let_def
  by (auto split: if_splits)

lemma estimate_kinematics_class:
  "estimate_kinematics m rp rt = Inr m' \<Longrightarrow>
     general_direction m' = general_direction m
     \<and> original_classification m' = original_classification m"
  unfolding estimate_kinematics_def Let_def
  by (auto split: if_splits)

lemma generate_predictions_keeps [simp]:
  "observed (generate_predictions m t) = observed m"
  "general_direction (generate_predictions m t) = general_direction m"
  "original_classification (generate_predictions m t) = original_classification m"
  by (simp_all add: generate_predictions_def Let_def)

lemma calculate_prediction_keeps:
  assumes "calculate_prediction m t = Inr m'"
  shows "observed m' = observed m
     \<and> general_direction m' = general_direction m
     \<and> original_classification m' = original_classification m"
proof (cases "length (positions m) < MIN_POINTS_FOR_PREDICTION")
  case True
  with assms have "m' = m" by (simp add: calculate_prediction_def)
  then show ?thesis by simp
next
  case False
  with assms obtain m1 where
    k: "estimate_kinematics m (py_suffix 10 (positions m)) (py_suffix 10 (timestamps m)) = Inr m1"
    and g: "m' = generate_predictions m1 t"
    by (auto simp: calculate_prediction_def bindE_eq_Inr)
  from estimate_kinematics_observed [OF k] estimate_kinematics_class [OF k] g
  show ?thesis by simp
qed

lemma calculate_direction_and_bridge_observed:
  "calculate_direction_and_bridge m = Inr m' \<Longrightarrow> observed m' = observed m"
  unfolding calculate_direction_and_bridge_def Let_def
  by (auto split: if_splits)

lemma calculate_direction_and_bridge_short:
  "length (positions m) < 5 \<Longrightarrow> calculate_direction_and_bridge m = Inr m"
  by (simp add: calculate_direction_and_bridge_def)

lemma calculate_direction_and_bridge_class:
  "calculate_direction_and_bridge m = Inr m' \<Longrightarrow> original_classification m = Some b \<Longrightarrow>
     original_classification m' = Some b"
  unfolding calculate_direction_and_bridge_def Let_def
  by (auto split: if_splits)

lemma validate_as_minion_keeps [simp]:
  "positions (validate_as_minion m t) = positions m"
  "timestamps (validate_as_minion m t) = timestamps m"
  "total_distance_traveled (validate_as_minion m t) = total_distance_traveled m"
  "general_direction (validate_as_minion m t) = general_direction m"
  "original_classification (validate_as_minion m t) = original_classification m"
  "frame_height (validate_as_minion m t) = frame_height m"
  "active (validate_as_minion m t) = active m"
  "last_seen (validate_as_minion m t) = last_seen m"
  "mid (validate_as_minion m t) = mid m"
  by (simp_all add: validate_as_minion_def Let_def)

section \<open>The update operation\<close>

lemma update_position_unfold:
  "update_position cv m p frame msk t =
     (if positions m = [] \<or> timestamps m = [] then Inl IndexError
      else bindE (calculate_direction_and_bridge (observe cv m p frame msk t))
             (\<lambda>s. calculate_prediction s t))"
  by (simp add: update_position_def observe_def py_last_def Let_def)

lemma observe_fields [simp]:
  "positions (observe cv m p frame msk t) = deque_append (positions m) p"
  "timestamps (observe cv m p frame msk t) = deque_append (timestamps m) t"
  "total_distance_traveled (observe cv m p frame msk t) =
     total_distance_traveled m
       + hypot (fst p - fst (last (positions m))) (snd p - snd (last (positions m)))"
  "last_seen (observe cv m p frame msk t) = t"
  "active (observe cv m p frame msk t) = True"
  "hist (observe cv m p frame msk t) = compute_hist cv frame msk p"
  "mid (observe cv m p frame msk t) = mid m"
  "creation_time (observe cv m p frame msk t) = creation_time m"
  "frame_width (observe cv m p frame msk t) = frame_width m"
  "frame_height (observe cv m p frame msk t) = frame_height m"
  "general_direction (observe cv m p frame msk t) = general_direction m"
  "original_classification (observe cv m p frame msk t) = original_classification m"
  by (simp_all add: observe_def Let_def)

lemma observe_speed:
  "max_speed (observe cv m p frame msk t) =
     (if t - last (timestamps m) > 0
      then max (max_speed m)
             (hypot (fst p - fst (last (positions m))) (snd p - snd (last (positions m)))
                / (t - last (timestamps m)))
      else max_speed m)"
  "consecutive_stationary_frames (observe cv m p frame msk t) =
     (if t - last (timestamps m) > 0
      then (if hypot (fst p - fst (last (positions m))) (snd p - snd (last (positions m)))
                < STATIONARY_THRESHOLD
            then consecutive_stationary_frames m + 1 else 0)
      else consecutive_stationary_frames m)"
  by (simp_all add: observe_def Let_def)

lemma update_position_steps:
  assumes "update_position cv m p frame msk t = Inr m'"
  shows "positions m \<noteq> [] \<and> timestamps m \<noteq> []
     \<and> (\<exists>s. calculate_direction_and_bridge (observe cv m p frame msk t) = Inr s
            \<and> calculate_prediction s t = Inr m')"
proof (cases "positions m = [] \<or> timestamps m = []")
  case True
  with assms show ?thesis by (simp only: update_position_unfold if_True sum.distinct)
next
  case False
  with assms have
    "bindE (calculate_direction_and_bridge (observe cv m p frame msk t))
       (\<lambda>s. calculate_prediction s t) = Inr m'"
    by (simp only: update_position_unfold if_False)
  then have "\<exists>s. calculate_direction_and_bridge (observe cv m p frame msk t) = Inr s
            \<and> calculate_prediction s t = Inr m'"
    by (simp only: bindE_eq_Inr)
  with False show ?thesis by blast
qed

lemma update_position_Inr:
  assumes "update_position cv m p frame msk t = Inr m'"
  shows "positions m \<noteq> [] \<and> timestamps m \<noteq> []
     \<and> observed m' = observed (observe cv m p frame msk t)"
proof -
  from update_position_steps [OF assms] obtain s where
    ne: "positions m \<noteq> []" "timestamps m \<noteq> []"
    and d: "calculate_direction_and_bridge (observe cv m p frame msk t) = Inr s"
    and c: "calculate_prediction s t = Inr m'"
    by blast
  have "observed m' = observed s"
    using calculate_prediction_keeps [OF c] by blast
  also have "observed s = observed (observe cv m p frame msk t)"
    by (rule calculate_direction_and_bridge_observed [OF d])
  finally show ?thesis using ne by blast
qed

lemma update_position_class:
  assumes "update_position cv m p frame msk t = Inr m'"
    and "original_classification m = Some b"
  shows "original_classification m' = Some b"
proof -
  from update_position_steps [OF assms(1)] obtain s where
    d: "calculate_direction_and_bridge (observe cv m p frame msk t) = Inr s"
    and c: "calculate_prediction s t = Inr m'"
    by blast
  from assms(2) have "original_classification (observe cv m p frame msk t) = Some b"
    by (simp only: observe_fields)
  then have "original_classification s = Some b"
    by (rule calculate_direction_and_bridge_class [OF d])
  moreover have "original_classification m' = original_classification s"
    using calculate_prediction_keeps [OF c] by blast
  ultimately show ?thesis by (simp only:)
qed

lemma update_position_direction_short:
  assumes "update_position cv m p frame msk t = Inr m'"
    and "length (positions m') < 5"
  shows "general_direction m' = general_direction m"
proof -
  let ?o = "observe cv m p frame msk t"
  from update_position_steps [OF assms(1)] obtain s where
    d: "calculate_direction_and_bridge ?o = Inr s"
    and c: "calculate_prediction s t = Inr m'"
    by blast
  have k: "observed m' = observed s" "general_direction m' = general_direction s"
    using calculate_prediction_keeps [OF c] by blast+
  have "positions m' = positions s"
    using k(1) by (rule observed_fields(2))
  also have "positions s = positions ?o"
    using calculate_direction_and_bridge_observed [OF d] by (rule observed_fields(2))
  finally have "length (positions ?o) < 5"
    using assms(2) by (simp only:)
  then have "calculate_direction_and_bridge ?o = Inr ?o"
    by (rule calculate_direction_and_bridge_short)
  with d have "s = ?o" by (metis sum.inject(2))
  then have "general_direction s = general_direction m"
    by (simp only: observe_fields)
  with k(2) show ?thesis by (simp only:)
qed

section \<open>The update operation returns\<close>

lemma calculate_direction_and_bridge_total:
  "frame_height m \<noteq> 0 \<Longrightarrow> \<exists>m'. calculate_direction_and_bridge m = Inr m'"
  by (simp add: calculate_direction_and_bridge_def Let_def)

lemma estimate_kinematics_total:
  "length rt = length rp \<Longrightarrow> \<exists>m'. estimate_kinematics m rp rt = Inr m'"
  by (auto simp: estimate_kinematics_def Let_def)

lemma calculate_prediction_total:
  assumes "length (timestamps m) = length (positions m)"
  shows "\<exists>m'. calculate_prediction m t = Inr m'"
proof (cases "length (positions m) < MIN_POINTS_FOR_PREDICTION")
  case True
  then show ?thesis by (simp add: calculate_prediction_def)
next
  case False
  from assms have "length (py_suffix 10 (timestamps m)) = length (py_suffix 10 (positions m))"
    by (simp add: length_py_suffix)
  from estimate_kinematics_total [OF this, of m] obtain m1 where
    "estimate_kinematics m (py_suffix 10 (positions m)) (py_suffix 10 (timestamps m)) = Inr m1"
    by blast
  with False show ?thesis by (simp add: calculate_prediction_def)
qed

lemma update_position_total:
  assumes "track_wf m"
  shows "\<exists>m'. update_position cv m p frame msk t = Inr m'"
proof -
  let ?o = "observe cv m p frame msk t"
  from assms have ne: "\<not> (positions m = [] \<or> timestamps m = [])"
    by (auto simp: track_wf_def)
  from assms have "frame_height ?o \<noteq> 0" by (simp add: track_wf_def)
  from calculate_direction_and_bridge_total [OF this] obtain s where
    d: "calculate_direction_and_bridge ?o = Inr s" by blast
  note o = calculate_direction_and_bridge_observed [OF d]
  from assms have "length (timestamps ?o) = length (positions ?o)"
    by (simp add: track_wf_def length_deque_append)
  then have "length (timestamps s) = length (positions s)"
    by (simp only: observed_fields(2) [OF o] observed_fields(3) [OF o])
  from calculate_prediction_total [OF this, of t] obtain m' where
    c: "calculate_prediction s t = Inr m'" by blast
  have "update_position cv m p frame msk t = Inr m'"
    by (simp only: update_position_unfold ne if_False d bindE_Inr c)
  then show ?thesis by blast
qed
section \<open>Sequences of operations on a track\<close>

lemma apply_op_histories:
  assumes "apply_op cv m x = Inr m'"
  shows "(case x of
            Update p frame msk t \<Rightarrow>
              positions m' = deque_append (positions m) p
              \<and> timestamps m' = deque_append (timestamps m) t
          | _ \<Rightarrow> positions m' = positions m \<and> timestamps m' = timestamps m)"
proof (cases x)
  case (Update p frame msk t)
  with assms have "update_position cv m p frame msk t = Inr m'" by simp
  from update_position_Inr [OF this]
  have o: "observed m' = observed (observe cv m p frame msk t)" by blast
  from observed_fields(2) [OF o] observed_fields(3) [OF o] Update
  show ?thesis by simp
next
  case (Validate t)
  with assms show ?thesis by auto
next
  case (Predict t)
  with assms have "calculate_prediction m t = Inr m'" by simp
  from calculate_prediction_keeps [OF this] have o: "observed m' = observed m" by blast
  from observed_fields(2) [OF o] observed_fields(3) [OF o] Predict
  show ?thesis by simp
next
  case Analyse
  with assms have "calculate_direction_and_bridge m = Inr m'" by simp
  note o = calculate_direction_and_bridge_observed [OF this]
  from observed_fields(2) [OF o] observed_fields(3) [OF o] Analyse
  show ?thesis by simp
next
  case MarkInactive
  with assms show ?thesis by auto
qed

lemma apply_op_lengths:
  assumes "apply_op cv m x = Inr m'"
    and "length (positions m) = length (timestamps m)"
    and "length (positions m) \<le> MAXLEN"
    and "positions m \<noteq> []"
  shows "length (positions m') = length (timestamps m') \<and> length (positions m') \<le> MAXLEN
     \<and> positions m' \<noteq> []"
  using apply_op_histories [OF assms(1)] assms(2-4)
  by (cases x) (simp_all add: length_deque_append deque_append_nonempty)

lemma run_ops_lengths:
  "run_ops cv m ops = Inr m' \<Longrightarrow> length (positions m) = length (timestamps m) \<Longrightarrow>
   length (positions m) \<le> MAXLEN \<Longrightarrow> positions m \<noteq> [] \<Longrightarrow>
   length (positions m') = length (timestamps m') \<and> length (positions m') \<le> MAXLEN
     \<and> positions m' \<noteq> []"
proof (induction ops arbitrary: m)
  case Nil
  then show ?case by simp
next
  case (Cons x ops)
  from Cons.prems(1) obtain m1 where
    s: "apply_op cv m x = Inr m1" and r: "run_ops cv m1 ops = Inr m'"
    by (auto simp: bindE_eq_Inr)
  from apply_op_lengths [OF s Cons.prems(2-4)] Cons.IH [OF r]
  show ?case by blast
qed

lemma Minion_init_histories:
  "positions (Minion_init cv i p frame msk w h t) = [p]"
  "timestamps (Minion_init cv i p frame msk w h t) = [t]"
  "general_direction (Minion_init cv i p frame msk w h t) = ''unknown''"
  "frame_height (Minion_init cv i p frame msk w h t) = h"
  "mid (Minion_init cv i p frame msk w h t) = i"
  "active (Minion_init cv i p frame msk w h t) = True"
  by (simp_all add: Minion_init_def deque_append_Nil)

lemma apply_op_total_distance:
  assumes "apply_op cv m x = Inr m'"
  shows "total_distance_traveled m \<le> total_distance_traveled m'"
proof (cases x)
  case (Update p frame msk t)
  with assms have "update_position cv m p frame msk t = Inr m'" by simp
  from update_position_Inr [OF this]
  have o: "observed m' = observed (observe cv m p frame msk t)" by blast
  from observed_fields(11) [OF o] hypot_nonneg show ?thesis by simp
next
  case (Validate t)
  with assms show ?thesis by auto
next
  case (Predict t)
  with assms have "calculate_prediction m t = Inr m'" by simp
  from calculate_prediction_keeps [OF this] have o: "observed m' = observed m" by blast
  from observed_fields(11) [OF o] show ?thesis by simp
next
  case Analyse
  with assms have "calculate_direction_and_bridge m = Inr m'" by simp
  note o = calculate_direction_and_bridge_observed [OF this]
  from observed_fields(11) [OF o] show ?thesis by simp
next
  case MarkInactive
  with assms show ?thesis by auto
qed

lemma apply_op_class:
  assumes "apply_op cv m x = Inr m'" and "original_classification m = Some b"
  shows "original_classification m' = Some b"
proof (cases x)
  case (Update p frame msk t)
  with assms(1) have "update_position cv m p frame msk t = Inr m'" by simp
  from update_position_class [OF this assms(2)] show ?thesis .
next
  case (Validate t)
  with assms show ?thesis by auto
next
  case (Predict t)
  with assms(1) have "calculate_prediction m t = Inr m'" by simp
  from calculate_prediction_keeps [OF this] assms(2) show ?thesis by simp
next
  case Analyse
  with assms(1) have "calculate_direction_and_bridge m = Inr m'" by simp
  from calculate_direction_and_bridge_class [OF this assms(2)] show ?thesis .
next
  case MarkInactive
  with assms show ?thesis by auto
qed

lemma apply_op_direction:
  assumes "apply_op cv m x = Inr m'"
    and "length (positions m) < 5 \<longrightarrow> general_direction m = ''unknown''"
  shows "length (positions m') < 5 \<longrightarrow> general_direction m' = ''unknown''"
proof
  assume short: "length (positions m') < 5"
  show "general_direction m' = ''unknown''"
  proof (cases x)
    case (Update p frame msk t)
    with assms(1) have u: "update_position cv m p frame msk t = Inr m'" by simp
    from apply_op_histories [OF assms(1)] Update
    have "positions m' = deque_append (positions m) p" by simp
    with short have "length (positions m) < 5"
      by (simp add: length_deque_append MAXLEN_def)
    with assms(2) update_position_direction_short [OF u short] show ?thesis by simp
  next
    case (Validate t)
    with assms short show ?thesis by auto
  next
    case (Predict t)
    with assms(1) have "calculate_prediction m t = Inr m'" by simp
    from calculate_prediction_keeps [OF this]
    have o: "observed m' = observed m" and g: "general_direction m' = general_direction m"
      by blast+
    from observed_fields(2) [OF o] short assms(2) g show ?thesis by simp
  next
    case Analyse
    with assms(1) have c: "calculate_direction_and_bridge m = Inr m'" by simp
    note o = calculate_direction_and_bridge_observed [OF c]
    from observed_fields(2) [OF o] short have s: "length (positions m) < 5" by simp
    from calculate_direction_and_bridge_short [OF s] c have "m' = m" by simp
    with assms(2) s show ?thesis by simp
  next
    case MarkInactive
    with assms short show ?thesis by auto
  qed
qed

section \<open>Worked examples\<close>

lemmas example_eval =
  example_vision_def example_track_def example_updates_def example_retreat_def
  Minion_init_def update_position_def deque_append_def MAXLEN_def
  compute_hist_def py_int_def slice_size_def Let_def hypot_axis py_last_def
  calculate_direction_and_bridge_def calculate_prediction_def MIN_POINTS_FOR_PREDICTION_def
  STATIONARY_THRESHOLD_def estimate_kinematics_def py_suffix_def generate_predictions_def
  classify_as_enemy_def PLAYER_SIDE_def validate_as_minion_def MIN_LIFETIME_def
  MIN_DISTANCE_TRAVELED_def

lemma bindE_weak_cong: "r = r' \<Longrightarrow> bindE r f = bindE r' f"
  by simp

lemmas eval_cong = let_weak_cong bindE_weak_cong sum.case_cong_weak option.case_cong_weak

lemma example_track_5_reached:
  "run_ops example_vision example_track example_updates = Inr example_track_5"
  by (simp add: example_eval example_track_5_def cong: eval_cong)

lemma example_retreat_run:
  "\<exists>m. run_ops example_vision example_track_5 example_retreat = Inr m
     \<and> general_direction m = ''left'' \<and> is_valid_minion m \<and> \<not> classify_as_enemy m
     \<and> length (positions m) = 6"
  by (simp add: example_eval example_track_5_def cong: eval_cong)

section \<open>Properties of the track\<close>









lemma run_ops_class:
  "run_ops cv m ops = Inr m' \<Longrightarrow> original_classification m = Some b \<Longrightarrow>
   original_classification m' = Some b"
proof (induction ops arbitrary: m)
  case Nil
  then show ?case by simp
next
  case (Cons x ops)
  from Cons.prems(1) obtain m1 where
    s: "apply_op cv m x = Inr m1" and r: "run_ops cv m1 ops = Inr m'"
    by (auto simp: bindE_eq_Inr)
  from Cons.IH [OF r apply_op_class [OF s Cons.prems(2)]] show ?case .
qed

text \<open>
  C5. Once \<open>original_classification\<close> holds a value, no sequence of operations on the
  track changes it, and the strategic summary of a validated track reports that value as
  \<open>likely_enemy\<close>, whatever the current direction.
\<close>

theorem original_classification_frozen:
  assumes "original_classification m = Some b"
    and "run_ops cv m ops = Inr m'"
  shows "original_classification m' = Some b
     \<and> (is_valid_minion m' \<longrightarrow> map_option likely_enemy (get_strategy_info m') = Some b)"
proof -
  from run_ops_class [OF assms(2,1)] have c: "original_classification m' = Some b" .
  then show ?thesis by (simp add: get_strategy_info_def)
qed

text \<open>
  The track that moved right and was classified enemy turns res to x = 0: its direction
  becomes left, recomputing would say "not enemy", the frozen value and the summary still
  say enemy.
\<close>

theorem original_classification_frozen_witness:
  "original_classification example_track_5 = Some True
   \<and> (\<exists>m'. run_ops example_vision example_track_5 example_retreat = Inr m'
          \<and> general_direction m' = ''left'' \<and> \<not> classify_as_enemy m'
          \<and> original_classification m' = Some True
          \<and> map_option likely_enemy (get_strategy_info m') = Some True)"
proof -
  have c: "original_classification example_track_5 = Some True"
    by (simp add: example_track_5_def)
  from example_retreat_run obtain m' where
    r: "run_ops example_vision example_track_5 example_retreat = Inr m'"
    and g: "general_direction m' = ''left''" "is_valid_minion m'" "\<not> classify_as_enemy m'"
    by blast
  from original_classification_frozen [OF c r] g r c show ?thesis by blast
qed

text \<open>
  C6. From its creation on and after any sequence of operations, a track has as many
  positions as timestamps and at most 80 of each; an update appends the new position and
  timestamp at the end and, when that makes 81, drops the oldest.
\<close>

theorem histories_bounded:
  assumes "run_ops cv (Minion_init cv i p0 frame0 msk0 w h t0) ops = Inr m"
  shows "length (positions m) = length (timestamps m) \<and> length (positions m) \<le> 80
     \<and> (\<forall>p frame msk t m'. update_position cv m p frame msk t = Inr m' \<longrightarrow>
           positions m' = drop (Suc (length (positions m)) - 80) (positions m @ [p])
           \<and> timestamps m' = drop (Suc (length (timestamps m)) - 80) (timestamps m @ [t])
           \<and> last (positions m') = p \<and> last (timestamps m') = t
           \<and> length (positions m') = length (timestamps m') \<and> length (positions m') \<le> 80)"
proof -
  let ?m0 = "Minion_init cv i p0 frame0 msk0 w h t0"
  have "length (positions ?m0) = length (timestamps ?m0)" "length (positions ?m0) \<le> MAXLEN"
    "positions ?m0 \<noteq> []"
    by (simp_all add: Minion_init_histories MAXLEN_def)
  from run_ops_lengths [OF assms this]
  have inv: "length (positions m) = length (timestamps m)" "length (positions m) \<le> 80"
    by (simp_all add: MAXLEN_def)
  have "positions m' = drop (Suc (length (positions m)) - 80) (positions m @ [p])
           \<and> timestamps m' = drop (Suc (length (timestamps m)) - 80) (timestamps m @ [t])
           \<and> last (positions m') = p \<and> last (timestamps m') = t
           \<and> length (positions m') = length (timestamps m') \<and> length (positions m') \<le> 80"
    if u: "update_position cv m p frame msk t = Inr m'" for p frame msk t m'
  proof -
    from update_position_Inr [OF u]
    have o: "observed m' = observed (observe cv m p frame msk t)" by blast
    have ps: "positions m' = deque_append (positions m) p"
      using observed_fields(2) [OF o] by simp
    have ts: "timestamps m' = deque_append (timestamps m) t"
      using observed_fields(3) [OF o] by simp
    from ps ts inv show ?thesis
      by (simp add: last_deque_append length_deque_append)
         (simp add: deque_append_def MAXLEN_def)
  qed
  with inv show ?thesis by blast
qed

theorem histories_bounded_witness:
  "\<exists>m. run_ops example_vision (Minion_init example_vision 1 (100, 500) () () 1920 1080 0)
          example_updates = Inr m
     \<and> positions m = [(100, 500), (175, 500), (250, 500), (325, 500), (400, 500)]
     \<and> length (positions m) = length (timestamps m) \<and> length (positions m) \<le> 80"
proof -
  have r: "run_ops example_vision (Minion_init example_vision 1 (100, 500) () () 1920 1080 0)
          example_updates = Inr example_track_5"
    using example_track_5_reached by (simp add: example_track_def)
  from histories_bounded [OF r] r show ?thesis
    by (simp add: example_track_5_def)
qed

lemma run_ops_total_distance:
  "run_ops cv m ops = Inr m' \<Longrightarrow> total_distance_traveled m \<le> total_distance_traveled m'"
proof (induction ops arbitrary: m)
  case Nil
  then show ?case by simp
next
  case (Cons x ops)
  from Cons.prems obtain m1 where
    s: "apply_op cv m x = Inr m1" and r: "run_ops cv m1 ops = Inr m'"
    by (auto simp: bindE_eq_Inr)
  from apply_op_total_distance [OF s] Cons.IH [OF r] show ?case by simp
qed

text \<open>
  C7. An update adds to \<open>total_distance_traveled\<close> the Euclidean distance between
  the previous and the new position, which is not negative; over any sequence of
  operations the total never decreases.
\<close>

theorem total_distance_monotone:
  "(update_position cv m p frame msk t = Inr m' \<longrightarrow>
      total_distance_traveled m' =
        total_distance_traveled m
          + hypot (fst p - fst (last (positions m))) (snd p - snd (last (positions m)))
      \<and> 0 \<le> hypot (fst p - fst (last (positions m))) (snd p - snd (last (positions m)))
      \<and> total_distance_traveled m \<le> total_distance_traveled m')
   \<and> (run_ops cv m ops = Inr m'' \<longrightarrow>
        total_distance_traveled m \<le> total_distance_traveled m'')"
proof (intro conjI impI)
  assume u: "update_position cv m p frame msk t = Inr m'"
  from update_position_Inr [OF u]
  have o: "observed m' = observed (observe cv m p frame msk t)" by blast
  from observed_fields(11) [OF o]
  show e: "total_distance_traveled m' =
        total_distance_traveled m
          + hypot (fst p - fst (last (positions m))) (snd p - snd (last (positions m)))"
    by simp
  show "0 \<le> hypot (fst p - fst (last (positions m))) (snd p - snd (last (positions m)))"
    by (rule hypot_nonneg)
  with e show "total_distance_traveled m \<le> total_distance_traveled m'" by simp
next
  assume "run_ops cv m ops = Inr m''"
  then show "total_distance_traveled m \<le> total_distance_traveled m''"
    by (rule run_ops_total_distance)
qed

theorem total_distance_monotone_witness:
  "\<exists>m'. run_ops example_vision example_track_5 example_retreat = Inr m'
     \<and> total_distance_traveled example_track_5 = 300
     \<and> total_distance_traveled example_track_5 \<le> total_distance_traveled m'"
proof -
  from example_retreat_run obtain m' where
    r: "run_ops example_vision example_track_5 example_retreat = Inr m'" by blast
  from total_distance_monotone
         [of example_vision example_track_5 "(0, 0)" "()" "()" 0 example_track_5
             example_retreat m'] r
  show ?thesis by (simp add: example_track_5_def)
qed

lemma run_ops_direction:
  "run_ops cv m ops = Inr m' \<Longrightarrow>
   (length (positions m) < 5 \<longrightarrow> general_direction m = ''unknown'') \<Longrightarrow>
   (length (positions m') < 5 \<longrightarrow> general_direction m' = ''unknown'')"
proof (induction ops arbitrary: m)
  case Nil
  then show ?case by simp
next
  case (Cons x ops)
  from Cons.prems(1) obtain m1 where
    s: "apply_op cv m x = Inr m1" and r: "run_ops cv m1 ops = Inr m'"
    by (auto simp: bindE_eq_Inr)
  from Cons.IH [OF r apply_op_direction [OF s Cons.prems(2)]] show ?case .
qed

text \<open>
  C8. A track is created with direction "unknown", and whatever operations follow, as long
  as its history holds fewer than 5 samples its direction is still "unknown".
\<close>

theorem direction_unknown_below_5_samples:
  assumes "run_ops cv (Minion_init cv i p0 frame0 msk0 w h t0) ops = Inr m"
    and "length (positions m) < 5"
  shows "general_direction m = ''unknown''"
proof -
  have "length (positions (Minion_init cv i p0 frame0 msk0 w h t0)) < 5 \<longrightarrow>
        general_direction (Minion_init cv i p0 frame0 msk0 w h t0) = ''unknown''"
    by (simp add: Minion_init_histories)
  from run_ops_direction [OF assms(1) this] assms(2) show ?thesis by simp
qed

text \<open>
  Three updates take the example track 225 pixels to the right, well past the 50 pixel
  threshold, and with 4 samples its direction is still unknown.
\<close>

theorem direction_unknown_below_5_samples_witness:
  "\<exists>m. run_ops example_vision (Minion_init example_vision 1 (100, 500) () () 1920 1080 0)
          (take 3 example_updates) = Inr m
     \<and> positions m = [(100, 500), (175, 500), (250, 500), (325, 500)]
     \<and> general_direction m = ''unknown''"
proof -
  have "\<exists>m. run_ops example_vision (Minion_init example_vision 1 (100, 500) () () 1920 1080 0)
          (take 3 example_updates) = Inr m
     \<and> positions m = [(100, 500), (175, 500), (250, 500), (325, 500)]"
    by (simp add: example_eval cong: eval_cong)
  then obtain m where
    r: "run_ops example_vision (Minion_init example_vision 1 (100, 500) () () 1920 1080 0)
          (take 3 example_updates) = Inr m"
    and p: "positions m = [(100, 500), (175, 500), (250, 500), (325, 500)]"
    by blast
  from p have "length (positions m) < 5" by simp
  from direction_unknown_below_5_samples [OF r this] r p show ?thesis by blast
qed

lemma apply_op_track_wf:
  assumes "apply_op cv m x = Inr m'" and "track_wf m"
  shows "track_wf m'"
proof -
  have fh: "frame_height m' = frame_height m"
  proof (cases x)
    case (Update p frame msk t)
    with assms(1) have "update_position cv m p frame msk t = Inr m'" by simp
    from update_position_Inr [OF this]
    have o: "observed m' = observed (observe cv m p frame msk t)" by blast
    from observed_fields(10) [OF o] show ?thesis by simp
  next
    case (Validate t)
    with assms(1) show ?thesis by auto
  next
    case (Predict t)
    with assms(1) have "calculate_prediction m t = Inr m'" by simp
    from calculate_prediction_keeps [OF this] have o: "observed m' = observed m" by blast
    from observed_fields(10) [OF o] show ?thesis .
  next
    case Analyse
    with assms(1) have "calculate_direction_and_bridge m = Inr m'" by simp
    note o = calculate_direction_and_bridge_observed [OF this]
    from observed_fields(10) [OF o] show ?thesis .
  next
    case MarkInactive
    with assms(1) show ?thesis by auto
  qed
  from apply_op_histories [OF assms(1)] assms(2) fh show ?thesis
    by (cases x) (simp_all add: track_wf_def length_deque_append deque_append_nonempty)
qed

lemma run_ops_track_wf:
  "run_ops cv m ops = Inr m' \<Longrightarrow> track_wf m \<Longrightarrow> track_wf m'"
proof (induction ops arbitrary: m)
  case Nil
  then show ?case by simp
next
  case (Cons x ops)
  from Cons.prems(1) obtain m1 where
    s: "apply_op cv m x = Inr m1" and r: "run_ops cv m1 ops = Inr m'"
    by (auto simp: bindE_eq_Inr)
  from Cons.IH [OF r apply_op_track_wf [OF s Cons.prems(2)]] show ?case .
qed

lemma Minion_init_track_wf: "h \<noteq> 0 \<Longrightarrow> track_wf (Minion_init cv i p frame msk w h t)"
  by (simp add: track_wf_def Minion_init_histories)

text \<open>
  C10. For a track created on a frame of non-zero height (the manager creates every track
  on the 1920 by 1080 frame) and brought anywhere by operations, an update returns a track
  for every position, frame, mask and timestamp. When the timestamp is not greater than the
  last one, \<open>max_speed\<close> and the stationary counter keep their values, and still the step
  distance is added, position and timestamp are appended, \<open>last_seen\<close> is the timestamp
  and the track is active.
\<close>

theorem update_position_returns:
  assumes "h \<noteq> 0"
    and "run_ops cv (Minion_init cv i p0 frame0 msk0 w h t0) ops = Inr m"
  shows "\<exists>m'. update_position cv m p frame msk t = Inr m'
     \<and> (t \<le> last (timestamps m) \<longrightarrow>
          max_speed m' = max_speed m
          \<and> consecutive_stationary_frames m' = consecutive_stationary_frames m
          \<and> total_distance_traveled m' =
              total_distance_traveled m
                + hypot (fst p - fst (last (positions m))) (snd p - snd (last (positions m)))
          \<and> positions m' = deque_append (positions m) p
          \<and> timestamps m' = deque_append (timestamps m) t
          \<and> last_seen m' = t \<and> active m')"
proof -
  from run_ops_track_wf [OF assms(2) Minion_init_track_wf [OF assms(1)]]
  have "track_wf m" .
  from update_position_total [OF this, of cv p frame msk t] obtain m' where
    u: "update_position cv m p frame msk t = Inr m'" by blast
  from update_position_Inr [OF u]
  have o: "observed m' = observed (observe cv m p frame msk t)" by blast
  have "max_speed m' = max_speed m
          \<and> consecutive_stationary_frames m' = consecutive_stationary_frames m"
    if "t \<le> last (timestamps m)"
    using that observed_fields(13) [OF o] observed_fields(14) [OF o]
    by (simp add: observe_speed)
  moreover have "total_distance_traveled m' =
              total_distance_traveled m
                + hypot (fst p - fst (last (positions m))) (snd p - snd (last (positions m)))"
    using observed_fields(11) [OF o] by simp
  moreover have "positions m' = deque_append (positions m) p"
    using observed_fields(2) [OF o] by simp
  moreover have "timestamps m' = deque_append (timestamps m) t"
    using observed_fields(3) [OF o] by simp
  moreover have "last_seen m' = t" using observed_fields(5) [OF o] by simp
  moreover have "active m'" using observed_fields(6) [OF o] by simp
  ultimately show ?thesis using u by blast
qed

text \<open>
  The example track, last seen at time 2 at (400, 500), is updated with (400, 510) at the
  earlier time 1: the 10 pixels are counted, speed and stationary counter are untouched.
\<close>

theorem update_position_returns_witness:
  "(1080::int) \<noteq> 0
   \<and> (\<exists>m'. update_position example_vision example_track_5 (400, 510) () () 1 = Inr m'
          \<and> max_speed m' = 150 \<and> consecutive_stationary_frames m' = 0
          \<and> total_distance_traveled m' = 310
          \<and> last (positions m') = (400, 510) \<and> last (timestamps m') = 1
          \<and> last_seen m' = 1 \<and> active m')"
proof -
  have h: "(1080::int) \<noteq> 0" by simp
  have r: "run_ops example_vision (Minion_init example_vision 1 (100, 500) () () 1920 1080 0)
          example_updates = Inr example_track_5"
    using example_track_5_reached by (simp add: example_track_def)
  have d: "hypot (400 - 400) (510 - 500) = 10"
    by (simp add: hypot_def real_sqrt_unique)
  from update_position_returns [OF h r, of "(400, 510)" "()" "()" 1] d
  show ?thesis
    by (auto simp: example_track_5_def last_deque_append)
qed

section \<open>Properties of the tracking manager\<close>

lemma get_strategy_info_enemy:
  "is_valid_minion m \<Longrightarrow>
   (case get_strategy_info m of None \<Rightarrow> False | Some info \<Rightarrow> likely_enemy info)
     = (case original_classification m of Some c \<Rightarrow> c | None \<Rightarrow> classify_as_enemy m)"
  by (simp add: get_strategy_info_def)

text \<open>
  C9. \<open>get_active_minions\<close> returns exactly the tracks of the dictionary, in its order,
  that are active and valid; \<open>get_enemy_minions\<close> returns exactly those of them whose
  classification, the frozen one when there is one and else the one derived from the
  current direction, is enemy. Both are functions of the manager's state and return no
  state: they write nothing.
\<close>

theorem queries_select:
  "get_active_minions self =
     filter (\<lambda>m. active m \<and> is_valid_minion m) (map snd (minions self))
   \<and> get_enemy_minions self =
     filter (\<lambda>m. case original_classification m of
                   Some c \<Rightarrow> c
                 | None \<Rightarrow> classify_as_enemy m)
       (get_active_minions self)
   \<and> set (get_enemy_minions self) \<subseteq> set (get_active_minions self)"
proof -
  have a: "get_active_minions self =
     filter (\<lambda>m. active m \<and> is_valid_minion m) (map snd (minions self))"
    by (simp add: get_active_minions_def conj_commute)
  have v: "is_valid_minion m" if "m \<in> set (get_active_minions self)" for m
    using that by (simp add: get_active_minions_def)
  have e: "get_enemy_minions self =
     filter (\<lambda>m. case original_classification m of
                   Some c \<Rightarrow> c
                 | None \<Rightarrow> classify_as_enemy m)
       (get_active_minions self)"
    unfolding get_enemy_minions_def
    by (rule filter_cong [OF refl]) (simp add: get_strategy_info_enemy v)
  have s: "set (get_enemy_minions self) \<subseteq> set (get_active_minions self)"
    by (auto simp: get_enemy_minions_def)
  from a e s show ?thesis by blast
qed

theorem queries_select_witness:
  "map mid (get_active_minions query_detector) = [1, 2]
   \<and> map mid (get_enemy_minions query_detector) = [1]
   \<and> map general_direction (get_enemy_minions query_detector) = [''left'']"
  using queries_select [of query_detector]
  by (simp add: query_detector_def example_track_5_def example_track_def Minion_init_def
        classify_as_enemy_def PLAYER_SIDE_def)

lemma dict_set_fresh: "k \<notin> set (map fst d) \<Longrightarrow> dict_set d k v = d @ [(k, v)]"
  by (simp add: dict_set_def)

lemma spawn_loop_mass:
  "is_mass_spawn_event ds t \<Longrightarrow> spawn_loop cv ds used frame msk t es self = self"
  by (induction es arbitrary: self) auto

lemma enumerate_shift:
  "map (\<lambda>(j, p). f (int j) p) (enumerate (Suc 0) xs)
     = map (\<lambda>(j, p). f (1 + int j) p) (enumerate 0 xs)"
  by (simp add: enumerate_Suc_eq [of 0] comp_def case_prod_beta add.commute)

lemma spawn_loop_spawns:
  assumes "\<not> is_mass_spawn_event ds t"
  shows "ids_below_counter self \<Longrightarrow>
     minions (spawn_loop cv ds used frame msk t es self) =
       minions self
         @ map (\<lambda>(j, p). (next_minion_id self + int j,
                  Minion_init cv (next_minion_id self + int j) p frame msk
                    (det_frame_width self) (det_frame_height self) t))
             (enumerate 0 (map snd (filter (\<lambda>(i, p). i \<notin> used) es)))
     \<and> next_minion_id (spawn_loop cv ds used frame msk t es self) =
         next_minion_id self + int (length (filter (\<lambda>(i, p). i \<notin> used) es))
     \<and> det_frame_width (spawn_loop cv ds used frame msk t es self) = det_frame_width self
     \<and> det_frame_height (spawn_loop cv ds used frame msk t es self) = det_frame_height self"
proof (induction es arbitrary: self)
  case Nil
  then show ?case by simp
next
  case (Cons e es)
  obtain i p where e: "e = (i, p)" by (cases e)
  show ?case
  proof (cases "i \<in> used")
    case True
    with Cons e show ?thesis by simp
  next
    case False
    let ?n = "next_minion_id self"
    let ?new = "Minion_init cv ?n p frame msk (det_frame_width self) (det_frame_height self) t"
    let ?s1 = "self\<lparr>minions := dict_set (minions self) ?n ?new, next_minion_id := ?n + 1\<rparr>"
    from Cons.prems have fresh: "?n \<notin> set (map fst (minions self))"
      by (auto simp: ids_below_counter_def)
    then have m1: "minions ?s1 = minions self @ [(?n, ?new)]"
      by (simp add: dict_set_fresh)
    from Cons.prems m1 have b1: "ids_below_counter ?s1"
      by (auto simp: ids_below_counter_def)
    have step: "spawn_loop cv ds used frame msk t (e # es) self
                  = spawn_loop cv ds used frame msk t es ?s1"
      using False e assms by (simp add: Let_def)
    note ih = Cons.IH [OF b1]
    have f: "filter (\<lambda>(i, p). i \<notin> used) (e # es) = e # filter (\<lambda>(i, p). i \<notin> used) es"
      using False e by simp
    let ?U = "map snd (filter (\<lambda>(i, p). i \<notin> used) es)"
    let ?g = "\<lambda>k p. (?n + k,
                  Minion_init cv (?n + k) p frame msk (det_frame_width self) (det_frame_height self) t)"
    have sh: "map (\<lambda>(j, p). ?g (int j) p) (enumerate (Suc 0) ?U)
                = map (\<lambda>(j, p). ?g (1 + int j) p) (enumerate 0 ?U)"
      by (rule enumerate_shift)
    have "minions (spawn_loop cv ds used frame msk t es ?s1) =
            (minions self @ [(?n, ?new)])
              @ map (\<lambda>(j, p). ?g (1 + int j) p) (enumerate 0 ?U)"
      using ih m1 by (simp add: add.assoc)
    also have "\<dots> = minions self
              @ map (\<lambda>(j, p). ?g (int j) p) (enumerate 0 (map snd (filter (\<lambda>(i, p). i \<notin> used) (e # es))))"
      using sh False by (simp add: e)
    finally have A: "minions (spawn_loop cv ds used frame msk t (e # es) self) =
            minions self
              @ map (\<lambda>(j, p). ?g (int j) p)
                  (enumerate 0 (map snd (filter (\<lambda>(i, p). i \<notin> used) (e # es))))"
      by (simp only: step)
    have B: "next_minion_id (spawn_loop cv ds used frame msk t (e # es) self) =
         ?n + int (length (filter (\<lambda>(i, p). i \<notin> used) (e # es)))"
      unfolding step f using ih by simp
    have C: "det_frame_width (spawn_loop cv ds used frame msk t (e # es) self) = det_frame_width self"
      "det_frame_height (spawn_loop cv ds used frame msk t (e # es) self) = det_frame_height self"
      using ih by (simp_all add: step)
    from A B C show ?thesis by blast
  qed
qed

lemma associate_keys:
  "associate_detections_to_existing_minions cv ds frame msk t ms used = Inr (ms', used') \<Longrightarrow>
   map fst ms' = map fst ms"
proof (induction ms arbitrary: used ms' used')
  case Nil
  then show ?case by simp
next
  case (Cons a ms)
  obtain k m where a: "a = (k, m)" by (cases a)
  from Cons.prems a obtain m1 u1 rest u2 where
    r: "associate_detections_to_existing_minions cv ds frame msk t ms u1 = Inr (rest, u2)"
    and e: "ms' = (k, m1) # rest"
    by (auto split: sum.splits prod.splits)
  from Cons.IH [OF r] e a show ?case by simp
qed

lemma fold_dict_del_keys:
  "set (map fst (fold dict_del ks d)) \<subseteq> set (map fst d)"
proof (induction ks arbitrary: d)
  case Nil
  then show ?case by simp
next
  case (Cons k ks)
  have "set (map fst (fold dict_del ks (dict_del k d))) \<subseteq> set (map fst (dict_del k d))"
    by (rule Cons.IH)
  also have "\<dots> \<subseteq> set (map fst d)" by (auto simp: dict_del_def)
  finally show ?case by simp
qed

lemma update_minion_status_keys:
  "set (map fst (minions (update_minion_status self t))) \<subseteq> set (map fst (minions self))
   \<and> next_minion_id (update_minion_status self t) = next_minion_id self"
proof -
  let ?aged = "map (\<lambda>(k, minion). (k, age_minion t minion)) (minions self)"
  have "map fst ?aged = map fst (minions self)" by (simp add: comp_def case_prod_beta)
  with fold_dict_del_keys [of _ ?aged] show ?thesis
    by (simp add: update_minion_status_def Let_def)
qed

lemma create_new_minions_counter:
  assumes "ids_below_counter self"
  shows "ids_below_counter (create_new_minions cv ds used frame msk t self)
     \<and> next_minion_id self \<le> next_minion_id (create_new_minions cv ds used frame msk t self)"
proof (cases "is_mass_spawn_event ds t")
  case True
  with assms show ?thesis by (simp add: create_new_minions_def spawn_loop_mass)
next
  case False
  from spawn_loop_spawns [OF False assms, of cv used frame msk "enumerate 0 ds"]
  show ?thesis using assms
    by (auto simp: create_new_minions_def ids_below_counter_def in_set_enumerate_eq)
qed

lemma update_minion_tracking_counter:
  assumes "update_minion_tracking cv self ds frame msk t = Inr self'"
    and "ids_below_counter self"
  shows "ids_below_counter self' \<and> next_minion_id self \<le> next_minion_id self'"
proof -
  from assms(1) obtain ms used where
    a: "associate_detections_to_existing_minions cv ds frame msk t (minions self) {}
          = Inr (ms, used)"
    and s: "self' = update_minion_status
                      (create_new_minions cv ds used frame msk t (self\<lparr>minions := ms\<rparr>)) t"
    by (auto simp: update_minion_tracking_def bindE_eq_Inr)
  let ?s1 = "self\<lparr>minions := ms\<rparr>"
  let ?s2 = "create_new_minions cv ds used frame msk t ?s1"
  from associate_keys [OF a] assms(2) have "ids_below_counter ?s1"
    by (simp add: ids_below_counter_def)
  from create_new_minions_counter [OF this, of cv ds used frame msk t]
  have c: "ids_below_counter ?s2" "next_minion_id self \<le> next_minion_id ?s2" by simp_all
  from update_minion_status_keys [of ?s2 t] s
  have k: "set (map fst (minions self')) \<subseteq> set (map fst (minions ?s2))"
    and n: "next_minion_id self' = next_minion_id ?s2"
    by simp_all
  have "x < next_minion_id self'" if x: "x \<in> set (map fst (minions self'))" for x
  proof -
    from x k have "x \<in> set (map fst (minions ?s2))" by blast
    with c(1) have "x < next_minion_id ?s2" unfolding ids_below_counter_def by blast
    with n show ?thesis by (simp only:)
  qed
  then have "ids_below_counter self'" unfolding ids_below_counter_def by blast
  with c(2) n show ?thesis by simp
qed

text \<open>
  C3. When the cycle has more than 20 candidates the spawn pass changes nothing. Otherwise,
  in a manager whose identifiers are all below its counter (true of the initial manager
  and kept by every cycle), the unused candidates become, in order, new tracks appended
  under the identifiers counter, counter + 1, ...; the counter ends above every
  identifier in use and never decreases, over a whole cycle as well, so no identifier is
  given twice.
\<close>

theorem spawn_pass:
  "(length ds > 20 \<longrightarrow> create_new_minions cv ds used frame msk t self = self)
   \<and> (length ds \<le> 20 \<and> ids_below_counter self \<longrightarrow>
        minions (create_new_minions cv ds used frame msk t self) =
          minions self
            @ map (\<lambda>(j, p). (next_minion_id self + int j,
                     Minion_init cv (next_minion_id self + int j) p frame msk
                       (det_frame_width self) (det_frame_height self) t))
                (enumerate 0 (unused_detections used ds))
        \<and> next_minion_id (create_new_minions cv ds used frame msk t self) =
            next_minion_id self + int (length (unused_detections used ds))
        \<and> ids_below_counter (create_new_minions cv ds used frame msk t self))
   \<and> (ids_below_counter self \<and> update_minion_tracking cv self ds frame msk t = Inr self' \<longrightarrow>
        ids_below_counter self' \<and> next_minion_id self \<le> next_minion_id self')"
proof (intro conjI impI)
  assume "length ds > 20"
  then have "is_mass_spawn_event ds t"
    by (simp add: is_mass_spawn_event_def MASS_SPAWN_THRESHOLD_def)
  then show "create_new_minions cv ds used frame msk t self = self"
    by (simp add: create_new_minions_def spawn_loop_mass)
next
  assume h: "length ds \<le> 20 \<and> ids_below_counter self"
  then have n: "\<not> is_mass_spawn_event ds t"
    by (simp add: is_mass_spawn_event_def MASS_SPAWN_THRESHOLD_def)
  from h have b: "ids_below_counter self" by blast
  note s = spawn_loop_spawns [OF n b, of cv used frame msk "enumerate 0 ds"]
  from s show "minions (create_new_minions cv ds used frame msk t self) =
          minions self
            @ map (\<lambda>(j, p). (next_minion_id self + int j,
                     Minion_init cv (next_minion_id self + int j) p frame msk
                       (det_frame_width self) (det_frame_height self) t))
                (enumerate 0 (unused_detections used ds))"
    by (simp add: create_new_minions_def unused_detections_def)
  from s show "next_minion_id (create_new_minions cv ds used frame msk t self) =
            next_minion_id self + int (length (unused_detections used ds))"
    by (simp add: create_new_minions_def unused_detections_def)
  from create_new_minions_counter [OF b, of cv ds used frame msk t]
  show "ids_below_counter (create_new_minions cv ds used frame msk t self)" by blast
next
  assume h: "ids_below_counter self \<and> update_minion_tracking cv self ds frame msk t = Inr self'"
  then have b: "ids_below_counter self"
    and u: "update_minion_tracking cv self ds frame msk t = Inr self'"
    by blast+
  from update_minion_tracking_counter [OF u b]
  show "ids_below_counter self'" "next_minion_id self \<le> next_minion_id self'"
    by blast+
qed

text \<open>
  In the initial manager, 25 candidates spawn nothing; two candidates become the tracks 1
  and 2 and the counter moves to 3; of three candidates with the second one used, the
  first and the third become the tracks 1 and 2.
\<close>

theorem spawn_pass_witness:
  "ids_below_counter (MinionDetector_init :: nat detector)
   \<and> create_new_minions example_vision (replicate 25 (10, 10)) {} () () 0 MinionDetector_init
       = MinionDetector_init
   \<and> map (\<lambda>(k, m). (k, mid m, positions m))
        (minions (create_new_minions example_vision [(10, 10), (500, 500)] {} () () 0
                    MinionDetector_init))
       = [(1, 1, [(10, 10)]), (2, 2, [(500, 500)])]
   \<and> next_minion_id (create_new_minions example_vision [(10, 10), (500, 500)] {} () () 0
                        (MinionDetector_init :: nat detector)) = 3
   \<and> map (\<lambda>(k, m). (k, mid m, positions m))
        (minions (create_new_minions example_vision [(10, 10), (20, 20), (500, 500)] {1} () () 0
                    MinionDetector_init))
       = [(1, 1, [(10, 10)]), (2, 2, [(500, 500)])]"
proof -
  have b: "ids_below_counter (MinionDetector_init :: nat detector)"
    by (simp add: ids_below_counter_def MinionDetector_init_def)
  note a = spawn_pass [where ds = "replicate 25 (10, 10)" and cv = example_vision
                          and used = "{}" and frame = "()" and msk = "()" and t = 0
                          and self = "MinionDetector_init :: nat detector"]
  note c = spawn_pass [where ds = "[(10, 10), (500, 500)]" and cv = example_vision
                          and used = "{}" and frame = "()" and msk = "()" and t = 0
                          and self = "MinionDetector_init :: nat detector"]
  note d = spawn_pass [where ds = "[(10, 10), (20, 20), (500, 500)]" and cv = example_vision
                          and used = "{1}" and frame = "()" and msk = "()" and t = 0
                          and self = "MinionDetector_init :: nat detector"]
  from a have 1: "create_new_minions example_vision (replicate 25 (10, 10)) {} () () 0
                    MinionDetector_init = (MinionDetector_init :: nat detector)"
    by simp
  from c b have 2: "map (\<lambda>(k, m). (k, mid m, positions m))
        (minions (create_new_minions example_vision [(10, 10), (500, 500)] {} () () 0
                    (MinionDetector_init :: nat detector)))
       = [(1, 1, [(10, 10)]), (2, 2, [(500, 500)])]"
    and 3: "next_minion_id (create_new_minions example_vision [(10, 10), (500, 500)] {} () () 0
                        (MinionDetector_init :: nat detector)) = 3"
    by (simp_all add: unused_detections_def enumerate_eq_zip MinionDetector_init_def
          Minion_init_histories)
  from d b have 4: "map (\<lambda>(k, m). (k, mid m, positions m))
        (minions (create_new_minions example_vision [(10, 10), (20, 20), (500, 500)] {1} () () 0
                    (MinionDetector_init :: nat detector)))
       = [(1, 1, [(10, 10)]), (2, 2, [(500, 500)])]"
    by (simp add: unused_detections_def enumerate_eq_zip MinionDetector_init_def
          Minion_init_histories)
  from b 1 2 3 4 show ?thesis by blast
qed

section \<open>The association pass\<close>

lemma match_distance_spec:
  assumes "positions m \<noteq> []"
  shows "match_distance m t p = Inr (spec_match_distance m t p)"
proof (cases "predicted_positions m = [] \<or> length (timestamps m) < 2")
  case True
  with assms have "get_predicted_position_at_time m t = Inr (Some (last (positions m)))"
    by (simp add: get_predicted_position_at_time_def)
  with assms show ?thesis
    by (simp add: match_distance_def spec_match_distance_def py_last_def Let_def)
next
  case False
  with assms obtain pp where "get_predicted_position_at_time m t = Inr (Some pp)"
    by (simp add: get_predicted_position_at_time_def py_last_def Let_def)
  with assms show ?thesis
    by (simp add: match_distance_def spec_match_distance_def py_last_def Let_def)
qed

lemma scan_step:
  assumes "scan_inv cv frame msk t m used P (b, dmin, smax)"
  shows "scan_inv cv frame msk t m used (insert (i, p) P)
           (if i \<notin> used \<and> spec_match_distance m t p < dmin
                \<and> similarity cv m frame msk p > HIST_SIMILARITY_THRESHOLD
                \<and> similarity cv m frame msk p > smax
            then (int i, spec_match_distance m t p, similarity cv m frame msk p)
            else (b, dmin, smax))"
proof (cases "i \<notin> used \<and> spec_match_distance m t p < dmin
                \<and> similarity cv m frame msk p > HIST_SIMILARITY_THRESHOLD
                \<and> similarity cv m frame msk p > smax")
  case True
  from assms have "dmin \<le> REID_TOLERANCE"
    by (auto simp: scan_inv_def seen_ok_def split: if_splits)
  with True have ok: "seen_ok cv frame msk t m used (i, p)"
    by (simp add: seen_ok_def)
  have "\<not> (spec_match_distance m t (snd c) < spec_match_distance m t p
            \<and> similarity cv m frame msk (snd c) > similarity cv m frame msk p)"
    if c: "c \<in> insert (i, p) P" and s: "seen_ok cv frame msk t m used c" for c
  proof (cases "c = (i, p)")
    case True
    then show ?thesis by simp
  next
    case False
    with c have cP: "c \<in> P" by simp
    show ?thesis
    proof (cases "b = - 1")
      case True
      with assms cP s show ?thesis by (auto simp: scan_inv_def)
    next
      case False
      with assms cP s have "\<not> (spec_match_distance m t (snd c) < dmin
                       \<and> similarity cv m frame msk (snd c) > smax)"
        by (auto simp: scan_inv_def)
      with \<open>i \<notin> used \<and> spec_match_distance m t p < dmin
                \<and> similarity cv m frame msk p > HIST_SIMILARITY_THRESHOLD
                \<and> similarity cv m frame msk p > smax\<close>
      show ?thesis by auto
    qed
  qed
  then have best: "\<forall>c \<in> insert (i, p) P. seen_ok cv frame msk t m used c \<longrightarrow>
            \<not> (spec_match_distance m t (snd c) < spec_match_distance m t p
               \<and> similarity cv m frame msk (snd c) > similarity cv m frame msk p)"
    by blast
  from ok have sel: "\<exists>q. (nat (int i), q) \<in> insert (i, p) P
            \<and> seen_ok cv frame msk t m used (nat (int i), q)
            \<and> spec_match_distance m t p = spec_match_distance m t q
            \<and> similarity cv m frame msk p = similarity cv m frame msk q"
    by (intro exI [of _ p]) simp
  have "scan_inv cv frame msk t m used (insert (i, p) P)
          (int i, spec_match_distance m t p, similarity cv m frame msk p)"
    unfolding scan_inv_def using sel best by simp
  with True show ?thesis by simp
next
  case False
  have new: "seen_ok cv frame msk t m used (i, p) \<Longrightarrow>
               \<not> (spec_match_distance m t p < dmin \<and> similarity cv m frame msk p > smax)"
    using False by (auto simp: seen_ok_def)
  show ?thesis
  proof (cases "b = - 1")
    case True
    with assms have d: "dmin = REID_TOLERANCE" "smax = 0"
      and old: "\<forall>c \<in> P. \<not> seen_ok cv frame msk t m used c"
      by (auto simp: scan_inv_def)
    have "\<not> seen_ok cv frame msk t m used (i, p)"
    proof
      assume s: "seen_ok cv frame msk t m used (i, p)"
      then have "spec_match_distance m t p < dmin" "similarity cv m frame msk p > smax"
        using d by (auto simp: seen_ok_def HIST_SIMILARITY_THRESHOLD_def)
      with new [OF s] show False by simp
    qed
    with old d True False show ?thesis
      by (auto simp: scan_inv_def)
  next
    case nb: False
    with assms new False show ?thesis
      by (auto simp: scan_inv_def)
  qed
qed

lemma find_best_match_inv:
  assumes "positions m \<noteq> []"
  shows "scan_inv cv frame msk t m used P best \<Longrightarrow>
     \<exists>best'. find_best_match cv frame msk t m used es best = Inr best'
        \<and> scan_inv cv frame msk t m used (P \<union> set es) best'"
proof (induction es arbitrary: P best)
  case Nil
  then show ?case by simp
next
  case (Cons e es)
  obtain i p where e: "e = (i, p)" by (cases e)
  obtain b dmin smax where best: "best = (b, dmin, smax)" by (cases best)
  let ?next = "if i \<notin> used \<and> spec_match_distance m t p < dmin
                \<and> similarity cv m frame msk p > HIST_SIMILARITY_THRESHOLD
                \<and> similarity cv m frame msk p > smax
            then (int i, spec_match_distance m t p, similarity cv m frame msk p)
            else (b, dmin, smax)"
  have step: "find_best_match cv frame msk t m used (e # es) best
                = find_best_match cv frame msk t m used es ?next"
    by (simp add: e best match_distance_spec [OF assms] Let_def)
  from Cons.prems best have "scan_inv cv frame msk t m used P (b, dmin, smax)" by simp
  from scan_step [OF this, of i p]
  have "scan_inv cv frame msk t m used (insert (i, p) P) ?next" .
  from Cons.IH [OF this] obtain best' where
    r: "find_best_match cv frame msk t m used es ?next = Inr best'"
    and v: "scan_inv cv frame msk t m used (insert (i, p) P \<union> set es) best'"
    by blast
  from v e have "scan_inv cv frame msk t m used (P \<union> set (e # es)) best'" by simp
  with r step show ?case by simp
qed

lemma seen_ok_eligible:
  "eligible cv frame msk t m used ds j \<longleftrightarrow>
     j < length ds \<and> seen_ok cv frame msk t m used (j, ds ! j)"
  by (auto simp: eligible_def seen_ok_def)

lemma find_best_match_result:
  assumes "positions m \<noteq> []"
  shows "\<exists>b dmin smax.
     find_best_match cv frame msk t m used (enumerate 0 ds) (- 1, REID_TOLERANCE, 0)
       = Inr (b, dmin, smax)
     \<and> (b = - 1 \<longrightarrow> (\<forall>j. \<not> eligible cv frame msk t m used ds j))
     \<and> (b \<noteq> - 1 \<longrightarrow> 0 \<le> b \<and> eligible cv frame msk t m used ds (nat b)
          \<and> (\<forall>j. eligible cv frame msk t m used ds j \<longrightarrow>
                \<not> (spec_match_distance m t (ds ! j) < spec_match_distance m t (ds ! nat b)
                   \<and> similarity cv m frame msk (ds ! j)
                       > similarity cv m frame msk (ds ! nat b))))"
proof -
  have "scan_inv cv frame msk t m used {} (- 1, REID_TOLERANCE, 0)"
    by (simp add: scan_inv_def)
  from find_best_match_inv [OF assms this, of "enumerate 0 ds"] obtain b dmin smax where
    r: "find_best_match cv frame msk t m used (enumerate 0 ds) (- 1, REID_TOLERANCE, 0)
          = Inr (b, dmin, smax)"
    and v: "scan_inv cv frame msk t m used (set (enumerate 0 ds)) (b, dmin, smax)"
    by auto
  have mem: "(j, ds ! j) \<in> set (enumerate 0 ds)" if "j < length ds" for j
    using that by (simp add: in_set_enumerate_eq)
  have none: "\<forall>j. \<not> eligible cv frame msk t m used ds j" if "b = - 1"
  proof
    fix j
    from that v have "\<forall>c \<in> set (enumerate 0 ds). \<not> seen_ok cv frame msk t m used c"
      by (simp add: scan_inv_def)
    with mem show "\<not> eligible cv frame msk t m used ds j"
      by (auto simp: seen_ok_eligible)
  qed
  have some: "0 \<le> b \<and> eligible cv frame msk t m used ds (nat b)
          \<and> (\<forall>j. eligible cv frame msk t m used ds j \<longrightarrow>
                \<not> (spec_match_distance m t (ds ! j) < spec_match_distance m t (ds ! nat b)
                   \<and> similarity cv m frame msk (ds ! j)
                       > similarity cv m frame msk (ds ! nat b)))" if nb: "b \<noteq> - 1"
  proof -
    from nb v obtain q where b0: "0 \<le> b"
      and q: "(nat b, q) \<in> set (enumerate 0 ds)" "seen_ok cv frame msk t m used (nat b, q)"
      and dq: "dmin = spec_match_distance m t q" "smax = similarity cv m frame msk q"
      and best: "\<forall>c \<in> set (enumerate 0 ds). seen_ok cv frame msk t m used c \<longrightarrow>
                    \<not> (spec_match_distance m t (snd c) < dmin
                       \<and> similarity cv m frame msk (snd c) > smax)"
      by (auto simp: scan_inv_def)
    from q(1) have qb: "nat b < length ds" "q = ds ! nat b"
      by (simp_all add: in_set_enumerate_eq)
    with q(2) have el: "eligible cv frame msk t m used ds (nat b)"
      by (simp add: seen_ok_eligible)
    have "\<not> (spec_match_distance m t (ds ! j) < spec_match_distance m t (ds ! nat b)
                   \<and> similarity cv m frame msk (ds ! j)
                       > similarity cv m frame msk (ds ! nat b))"
      if "eligible cv frame msk t m used ds j" for j
    proof -
      from that have "j < length ds" "seen_ok cv frame msk t m used (j, ds ! j)"
        by (simp_all add: seen_ok_eligible)
      with mem best have "\<not> (spec_match_distance m t (snd (j, ds ! j)) < dmin
                       \<and> similarity cv m frame msk (snd (j, ds ! j)) > smax)"
        by blast
      with dq qb show ?thesis by simp
    qed
    with b0 el show ?thesis by blast
  qed
  from r none some show ?thesis by blast
qed

lemma associate_minion_inactive:
  "\<not> active m \<Longrightarrow> associate_minion cv ds frame msk t m used = Inr (m, used)"
  by (simp add: associate_minion_def)

lemmas manager_eval =
  associate_minion_def REID_TOLERANCE_def HIST_SIMILARITY_THRESHOLD_def
  PREDICTION_TOLERANCE_def match_distance_def get_predicted_position_at_time_def
  similarity_def py_nth_def enumerate_eq_zip update_minion_tracking_def
  create_new_minions_def is_mass_spawn_event_def MASS_SPAWN_THRESHOLD_def dict_set_def
  update_minion_status_def age_minion_def MOVEMENT_MEMORY_def REID_MAX_TIME_def dict_del_def
  MinionDetector_init_def

text \<open>
  C1, as the code has it. For an active track, a candidate is eligible when it is unused,
  its distance (halved within the prediction tolerance) is below the re-identification
  tolerance and its similarity is above the floor. The search takes the candidates in
  order and replaces its selection only by a candidate that is both closer and more
  similar. So: with no eligible candidate the track is left alone; otherwise the track is
  updated with an eligible candidate that no eligible candidate beats in both distance and
  similarity, and that candidate is marked used. In the scenario of two tracks 30 pixels
  apart and one candidate equidistant from both, similarity 0.6 to A and 0.2 to B, the
  candidate goes to A and B is unmatched, whichever track comes first.
\<close>

theorem association_pass:
  "(active m \<and> positions m \<noteq> [] \<longrightarrow>
      ((\<forall>i. \<not> eligible cv frame msk t m used ds i) \<longrightarrow>
         associate_minion cv ds frame msk t m used = Inr (m, used))
    \<and> ((\<exists>i. eligible cv frame msk t m used ds i) \<longrightarrow>
         (\<exists>b. eligible cv frame msk t m used ds b
            \<and> (\<forall>j. eligible cv frame msk t m used ds j \<longrightarrow>
                  \<not> (spec_match_distance m t (ds ! j) < spec_match_distance m t (ds ! b)
                     \<and> similarity cv m frame msk (ds ! j) > similarity cv m frame msk (ds ! b)))
            \<and> associate_minion cv ds frame msk t m used =
                bindE (update_position cv m (ds ! b) frame msk t)
                  (\<lambda>m'. Inr (m', insert b used)))))
   \<and> spec_match_distance track_A 1 (115, 500) = spec_match_distance track_B 1 (115, 500)
   \<and> similarity scenario_vision track_A () () (115, 500) = 6 / 10
   \<and> similarity scenario_vision track_B () () (115, 500) = 2 / 10
   \<and> pass_result (associate_detections_to_existing_minions scenario_vision [(115, 500)] () () 1
                    [(1, track_A), (2, track_B)] {})
       = Inr ([(1, True, [(100, 500), (115, 500)]), (2, True, [(130, 500)])], {0})
   \<and> pass_result (associate_detections_to_existing_minions scenario_vision [(115, 500)] () () 1
                    [(2, track_B), (1, track_A)] {})
       = Inr ([(2, True, [(130, 500)]), (1, True, [(100, 500), (115, 500)])], {0})"
proof (intro conjI impI)
  assume h: "active m \<and> positions m \<noteq> []"
  then have ne: "positions m \<noteq> []" and ac: "active m" by blast+
  from find_best_match_result [OF ne, of cv frame msk t used ds] obtain b dmin smax where
    r: "find_best_match cv frame msk t m used (enumerate 0 ds) (- 1, REID_TOLERANCE, 0)
          = Inr (b, dmin, smax)"
    and none: "b = - 1 \<longrightarrow> (\<forall>j. \<not> eligible cv frame msk t m used ds j)"
    and some: "b \<noteq> - 1 \<longrightarrow> 0 \<le> b \<and> eligible cv frame msk t m used ds (nat b)
          \<and> (\<forall>j. eligible cv frame msk t m used ds j \<longrightarrow>
                \<not> (spec_match_distance m t (ds ! j) < spec_match_distance m t (ds ! nat b)
                   \<and> similarity cv m frame msk (ds ! j)
                       > similarity cv m frame msk (ds ! nat b)))"
    by blast
  {
    assume "\<forall>i. \<not> eligible cv frame msk t m used ds i"
    with some have "b = - 1" by blast
    with r ac show "associate_minion cv ds frame msk t m used = Inr (m, used)"
      by (simp add: associate_minion_def)
  next
    assume "\<exists>i. eligible cv frame msk t m used ds i"
    with none have nb: "b \<noteq> - 1" by blast
    with some have el: "eligible cv frame msk t m used ds (nat b)"
      and best: "\<forall>j. eligible cv frame msk t m used ds j \<longrightarrow>
                \<not> (spec_match_distance m t (ds ! j) < spec_match_distance m t (ds ! nat b)
                   \<and> similarity cv m frame msk (ds ! j)
                       > similarity cv m frame msk (ds ! nat b))"
      by blast+
    from el have "nat b < length ds" by (simp add: eligible_def)
    with r ac nb have "associate_minion cv ds frame msk t m used =
                bindE (update_position cv m (ds ! nat b) frame msk t)
                  (\<lambda>m'. Inr (m', insert (nat b) used))"
      by (simp add: associate_minion_def py_nth_def)
    with el best
    show "\<exists>b. eligible cv frame msk t m used ds b
            \<and> (\<forall>j. eligible cv frame msk t m used ds j \<longrightarrow>
                  \<not> (spec_match_distance m t (ds ! j) < spec_match_distance m t (ds ! b)
                     \<and> similarity cv m frame msk (ds ! j) > similarity cv m frame msk (ds ! b)))
            \<and> associate_minion cv ds frame msk t m used =
                bindE (update_position cv m (ds ! b) frame msk t)
                  (\<lambda>m'. Inr (m', insert b used))"
      by blast
  }
next
  show "spec_match_distance track_A 1 (115, 500) = spec_match_distance track_B 1 (115, 500)"
    by (simp add: spec_match_distance_def track_A_def track_B_def scenario_vision_def
          example_eval manager_eval cong: eval_cong)
next
  show "similarity scenario_vision track_A () () (115, 500) = 6 / 10"
    by (simp add: track_A_def scenario_vision_def example_eval manager_eval cong: eval_cong)
next
  show "similarity scenario_vision track_B () () (115, 500) = 2 / 10"
    by (simp add: track_B_def scenario_vision_def example_eval manager_eval cong: eval_cong)
next
  show "pass_result (associate_detections_to_existing_minions scenario_vision [(115, 500)] () () 1
                    [(1, track_A), (2, track_B)] {})
       = Inr ([(1, True, [(100, 500), (115, 500)]), (2, True, [(130, 500)])], {0})"
    by (simp add: pass_result_def track_A_def track_B_def scenario_vision_def
          example_eval manager_eval cong: eval_cong)
next
  show "pass_result (associate_detections_to_existing_minions scenario_vision [(115, 500)] () () 1
                    [(2, track_B), (1, track_A)] {})
       = Inr ([(2, True, [(130, 500)]), (1, True, [(100, 500), (115, 500)])], {0})"
    by (simp add: pass_result_def track_A_def track_B_def scenario_vision_def
          example_eval manager_eval cong: eval_cong)
qed

text \<open>
  Track A alone with the candidate of the scenario: the candidate is eligible, so by the
  theorem the track is updated with it.
\<close>

theorem association_pass_witness:
  "active track_A \<and> positions track_A \<noteq> []
   \<and> eligible scenario_vision () () 1 track_A {} [(115, 500)] 0
   \<and> associate_minion scenario_vision [(115, 500)] () () 1 track_A {} =
       bindE (update_position scenario_vision track_A (115, 500) () () 1)
         (\<lambda>m'. Inr (m', {0}))
   \<and> association_result (associate_minion scenario_vision [(115, 500)] () () 1 track_A {})
       = Inr ([(100, 500), (115, 500)], {0})"
proof -
  have h: "active track_A \<and> positions track_A \<noteq> []"
    by (simp add: track_A_def Minion_init_histories)
  have e: "eligible scenario_vision () () 1 track_A {} [(115, 500)] 0"
    by (simp add: eligible_def spec_match_distance_def track_A_def scenario_vision_def
          example_eval manager_eval cong: eval_cong)
  from association_pass [where m = track_A and cv = scenario_vision and frame = "()"
         and msk = "()" and t = 1 and used = "{}" and ds = "[(115, 500)]"] h e
  obtain b where b: "eligible scenario_vision () () 1 track_A {} [(115, 500)] b"
    and a: "associate_minion scenario_vision [(115, 500)] () () 1 track_A {} =
                bindE (update_position scenario_vision track_A ([(115, 500)] ! b) () () 1)
                  (\<lambda>m'. Inr (m', insert b {}))"
    by blast
  from b have "b = 0" by (simp add: eligible_def)
  with a have a0: "associate_minion scenario_vision [(115, 500)] () () 1 track_A {} =
       bindE (update_position scenario_vision track_A (115, 500) () () 1)
         (\<lambda>m'. Inr (m', {0}))"
    by simp
  have "association_result (bindE (update_position scenario_vision track_A (115, 500) () () 1)
         (\<lambda>m'. Inr (m', {0}))) = Inr ([(100, 500), (115, 500)], {0})"
    by (simp add: association_result_def track_A_def scenario_vision_def example_eval
          cong: eval_cong)
  with a0 h e show ?thesis by simp
qed

text \<open>
  C1 as stated fails. Track C is at (100, 500); the candidates at (110, 500) and at
  (120, 500) are both eligible and the second is the more similar (0.9 against 0.5). The
  search selects the first: once it is selected the second would have to be closer too.
\<close>

theorem association_pass_counterexample:
  "eligible ranking_vision () () 1 track_C {} [(110, 500), (120, 500)] 0
   \<and> eligible ranking_vision () () 1 track_C {} [(110, 500), (120, 500)] 1
   \<and> similarity ranking_vision track_C () () (110, 500) = 5 / 10
   \<and> similarity ranking_vision track_C () () (120, 500) = 9 / 10
   \<and> association_result
       (associate_minion ranking_vision [(110, 500), (120, 500)] () () 1 track_C {})
       = Inr ([(100, 500), (110, 500)], {0})"
  by (simp add: eligible_def spec_match_distance_def association_result_def track_C_def
        ranking_vision_def example_eval manager_eval cong: eval_cong)

section \<open>Inactive tracks\<close>

lemma lost_track_detector_reached:
  "bindE (update_minion_tracking example_vision MinionDetector_init [(500, 500)] () () 0)
     (\<lambda>s. update_minion_tracking example_vision s [] () () 6)
   = Inr lost_track_detector"
  by (simp add: lost_track_detector_def lost_track_def example_eval manager_eval
        cong: eval_cong)

lemma associate_pass_skips_inactive:
  "\<forall>(k, m) \<in> set ms. \<not> active m \<Longrightarrow>
   associate_detections_to_existing_minions cv ds frame msk t ms used = Inr (ms, used)"
  by (induction ms) (auto simp: associate_minion_inactive)

text \<open>
  C2 against the code. The manager holds the track created at time 0 at (500, 500), now
  inactive and not yet evicted. At time 7 a candidate appears exactly there, distance 0
  and similarity 1, so within the tolerance and above the floor. The association pass
  skips the track because it is inactive: nothing is matched, the track is left as it was
  and the candidate becomes the new track 2.
\<close>

theorem inactive_track_not_reidentified:
  "pass_result (Inr (minions lost_track_detector, {})) = Inr ([(1, False, [(500, 500)])], {})
   \<and> 7 - last_seen lost_track > MOVEMENT_MEMORY
   \<and> \<not> 7 - last_seen lost_track > REID_MAX_TIME
   \<and> spec_match_distance lost_track 7 (500, 500) = 0
   \<and> similarity example_vision lost_track () () (500, 500) = 1
   \<and> pass_result (associate_detections_to_existing_minions example_vision [(500, 500)] () () 7
                    (minions lost_track_detector) {})
       = Inr ([(1, False, [(500, 500)])], {})
   \<and> cycle_result (update_minion_tracking example_vision lost_track_detector [(500, 500)] () () 7)
       = Inr [(1, False, [(500, 500)], 0), (2, True, [(500, 500)], 7)]"
  by (simp add: pass_result_def cycle_result_def spec_match_distance_def
        lost_track_detector_def lost_track_def example_eval manager_eval cong: eval_cong)


end
